theory Spec2Isabelle
  imports Main "HOL-Library.AList"
begin

section \<open>Python strings\<close>

text \<open>
  A Python \<open>str\<close> is modelled as a HOL \<open>string\<close>; each \<open>char\<close> stands for one code
  point below 256, so \<open>length\<close> is Python's \<open>len\<close> on such text.  Whitespace is what
  \<open>str.isspace\<close>, \<open>str.strip\<close> and the pattern class \<open>\s\<close> accept in that range, and a
  digit is what \<open>\d\<close> accepts there.
\<close>

definition is_space :: "char \<Rightarrow> bool" where
  "is_space c = (let n = (of_char c :: nat)
                 in (9 \<le> n \<and> n \<le> 13) \<or> (28 \<le> n \<and> n \<le> 32) \<or> n = 133 \<or> n = 160)"

definition is_digit :: "char \<Rightarrow> bool" where
  "is_digit c = (let n = (of_char c :: nat) in 48 \<le> n \<and> n \<le> 57)"

definition strip :: "string \<Rightarrow> string" where
  "strip s = rev (dropWhile is_space (rev (dropWhile is_space s)))"

definition startswith :: "string \<Rightarrow> string \<Rightarrow> bool" where
  "startswith s p = (take (length p) s = p)"

text \<open>\<open>s.split(sep)\<close> for a one-character separator: never empty.\<close>

fun split_char :: "char \<Rightarrow> string \<Rightarrow> string list" where
  "split_char sep [] = [[]]"
| "split_char sep (c # cs) =
     (if c = sep then [] # split_char sep cs
      else (case split_char sep cs of
              [] \<Rightarrow> [[c]]
            | w # ws \<Rightarrow> (c # w) # ws))"

text \<open>\<open>s.split()\<close>: the maximal runs of non-whitespace; \<open>cur\<close> is the run being read, reversed.\<close>

fun split_ws_from :: "string \<Rightarrow> string \<Rightarrow> string list" where
  "split_ws_from cur [] = (if cur = [] then [] else [rev cur])"
| "split_ws_from cur (c # cs) =
     (if is_space c
      then (if cur = [] then split_ws_from [] cs else rev cur # split_ws_from [] cs)
      else split_ws_from (c # cur) cs)"

definition split_ws :: "string \<Rightarrow> string list" where
  "split_ws s = split_ws_from [] s"

fun join :: "string \<Rightarrow> string list \<Rightarrow> string" where
  "join sep [] = []"
| "join sep [x] = x"
| "join sep (x # y # ys) = x @ sep @ join sep (y # ys)"

section \<open>The fragment of Python's \<open>re\<close> used by the parser\<close>

text \<open>
  A pattern is a sequence of items, matched by backtracking in the order of Python's
  engine: a greedy star takes one more character before it tries the rest of the pattern,
  a lazy star tries the rest first, an optional part is tried before it is left out.
  Positions are absolute in the subject, so that \<open>^\<close> holds at position 0 only, and a
  group is the pair of positions where it opened and closed.
\<close>

datatype cclass = Dot | DotAll | Space | Digit

fun in_class :: "cclass \<Rightarrow> char \<Rightarrow> bool" where
  "in_class Dot c = (c \<noteq> CHR 0x0A)"
| "in_class DotAll c = True"
| "in_class Space c = is_space c"
| "in_class Digit c = is_digit c"

datatype item =
    Bol
  | Ch char
  | One cclass
  | Star cclass
  | StarLazy cclass
  | Open nat
  | Close nat
  | Opt "item list"

type_synonym caps = "(nat \<times> nat) list \<times> (nat \<times> nat \<times> nat) list"

function (sequential) match_here :: "item list \<Rightarrow> nat \<Rightarrow> string \<Rightarrow> caps \<Rightarrow> (nat \<times> caps) option" where
  "match_here [] pos s cp = Some (pos, cp)"
| "match_here (Bol # is) pos s cp = (if pos = 0 then match_here is pos s cp else None)"
| "match_here (Ch c # is) pos [] cp = None"
| "match_here (Ch c # is) pos (x # xs) cp =
     (if x = c then match_here is (Suc pos) xs cp else None)"
| "match_here (One k # is) pos [] cp = None"
| "match_here (One k # is) pos (x # xs) cp =
     (if in_class k x then match_here is (Suc pos) xs cp else None)"
| "match_here (Star k # is) pos [] cp = match_here is pos [] cp"
| "match_here (Star k # is) pos (x # xs) cp =
     (if in_class k x
      then (case match_here (Star k # is) (Suc pos) xs cp of
              Some r \<Rightarrow> Some r
            | None \<Rightarrow> match_here is pos (x # xs) cp)
      else match_here is pos (x # xs) cp)"
| "match_here (StarLazy k # is) pos [] cp = match_here is pos [] cp"
| "match_here (StarLazy k # is) pos (x # xs) cp =
     (case match_here is pos (x # xs) cp of
        Some r \<Rightarrow> Some r
      | None \<Rightarrow> (if in_class k x then match_here (StarLazy k # is) (Suc pos) xs cp else None))"
| "match_here (Open n # is) pos s (opens, groups) =
     match_here is pos s ((n, pos) # opens, groups)"
| "match_here (Close n # is) pos s (opens, groups) =
     (case map_of opens n of
        None \<Rightarrow> None
      | Some b \<Rightarrow> match_here is pos s (opens, (n, b, pos) # groups))"
| "match_here (Opt js # is) pos s cp =
     (case match_here (js @ is) pos s cp of
        Some r \<Rightarrow> Some r
      | None \<Rightarrow> match_here is pos s cp)"
  by pat_completeness auto
termination
  by (relation "measures [\<lambda>(is, pos, s, cp). size_list size is, \<lambda>(is, pos, s, cp). length s]")
     auto

type_synonym rmatch = "nat \<times> (nat \<times> nat \<times> nat) list"

text \<open>\<open>pattern.match(s)\<close>: anchored at position 0; the result is the end position and the groups.\<close>

definition re_match :: "item list \<Rightarrow> string \<Rightarrow> rmatch option" where
  "re_match p s = map_option (\<lambda>(e, cp). (e, snd cp)) (match_here p 0 s ([], []))"

text \<open>\<open>pattern.search(s)\<close>: the match at the leftmost position that has one.\<close>

fun search_from :: "item list \<Rightarrow> nat \<Rightarrow> string \<Rightarrow> rmatch option" where
  "search_from p pos [] = map_option (\<lambda>(e, cp). (e, snd cp)) (match_here p pos [] ([], []))"
| "search_from p pos (x # xs) =
     (case match_here p pos (x # xs) ([], []) of
        Some (e, cp) \<Rightarrow> Some (e, snd cp)
      | None \<Rightarrow> search_from p (Suc pos) xs)"

definition re_search :: "item list \<Rightarrow> string \<Rightarrow> rmatch option" where
  "re_search p s = search_from p 0 s"

text \<open>\<open>m.group(n)\<close> on subject \<open>s\<close>: \<open>None\<close> for a group that took no part in the match.\<close>

definition group :: "rmatch \<Rightarrow> nat \<Rightarrow> string \<Rightarrow> string option" where
  "group m n s = (case map_of (snd m) n of
                    None \<Rightarrow> None
                  | Some (b, e) \<Rightarrow> Some (take (e - b) (drop b s)))"

text \<open>
  \<open>pattern.sub(repl, s)\<close>: the non-overlapping matches from left to right are replaced
  by \<open>f\<close> of the match, everything else is copied.  \<open>skip\<close> counts the characters still
  inside the match found last.  An empty match is replaced and the scan moves on by one
  character (no pattern substituted by this program matches the empty string).
\<close>

fun sub_from :: "item list \<Rightarrow> (rmatch \<Rightarrow> string) \<Rightarrow> nat \<Rightarrow> nat \<Rightarrow> string \<Rightarrow> string" where
  "sub_from p f pos skip [] =
     (if skip = 0
      then (case match_here p pos [] ([], []) of
              None \<Rightarrow> []
            | Some (e, cp) \<Rightarrow> f (e, snd cp))
      else [])"
| "sub_from p f pos (Suc k) (x # xs) = sub_from p f (Suc pos) k xs"
| "sub_from p f pos 0 (x # xs) =
     (case match_here p pos (x # xs) ([], []) of
        None \<Rightarrow> x # sub_from p f (Suc pos) 0 xs
      | Some (e, cp) \<Rightarrow>
          (if e \<le> pos then f (e, snd cp) @ x # sub_from p f (Suc pos) 0 xs
           else f (e, snd cp) @ sub_from p f (Suc pos) (e - Suc pos) xs))"

definition re_sub :: "item list \<Rightarrow> (rmatch \<Rightarrow> string \<Rightarrow> string) \<Rightarrow> string \<Rightarrow> string" where
  "re_sub p repl s = sub_from p (\<lambda>m. repl m s) 0 0 s"

definition lit :: "string \<Rightarrow> item list" where
  "lit s = map Ch s"

section \<open>markdown\_parser.py\<close>

subsection \<open>The patterns of \<open>MarkdownParser.__init__\<close>\<close>

text \<open>\<^verbatim>\<open>^---\s*\n(.*?)\n---\s*\n\<close> with \<open>re.DOTALL\<close>.\<close>

definition frontmatter_pattern :: "item list" where
  "frontmatter_pattern =
     Bol # lit ''---'' @ [Star Space, Ch (CHR 0x0A), Open 1, StarLazy DotAll, Close 1, Ch (CHR 0x0A)]
       @ lit ''---'' @ [Star Space, Ch (CHR 0x0A)]"

text \<open>\<^verbatim>\<open>!\[\[(.*?)\]\]\<close>\<close>

definition obsidian_image_pattern :: "item list" where
  "obsidian_image_pattern = lit ''![['' @ [Open 1, StarLazy Dot, Close 1] @ lit '']]''"

text \<open>\<^verbatim>\<open>!\[(.*?)\]\((.*?)\)\<close>\<close>

definition md_image_pattern :: "item list" where
  "md_image_pattern =
     lit ''!['' @ [Open 1, StarLazy Dot, Close 1] @ lit ''](''
       @ [Open 2, StarLazy Dot, Close 2] @ lit '')''"

text \<open>\<^verbatim>\<open>\[\[(.*?)(?:\|(.*?))?\]\]\<close>\<close>

definition wikilink_pattern :: "item list" where
  "wikilink_pattern =
     lit ''[['' @ [Open 1, StarLazy Dot, Close 1,
                   Opt (Ch (CHR ''|'') # [Open 2, StarLazy Dot, Close 2])] @ lit '']]''"

text \<open>\<^verbatim>\<open>^\d+\.\s\<close>, the pattern of the numbered-list branch.\<close>

definition numbered_pattern :: "item list" where
  "numbered_pattern = [Bol, One Digit, Star Digit, Ch (CHR ''.''), One Space]"

subsection \<open>Exceptions\<close>

text \<open>The exceptions the modelled code can meet; each of them is an \<open>Exception\<close>.\<close>

datatype exn =
    APIResponseError
  | YAMLError
  | AttributeError
  | KeyError
  | IndexError
  | ValueError
  | OSError
  | OtherError

subsection \<open>Content blocks\<close>

text \<open>
  A rich-text value is the list of the \<open>content\<close> strings of its text objects.  A block is
  the dictionary the parser builds, by its \<open>type\<close>: the heading carries its level, the
  to-do its \<open>checked\<close> flag, the code block its \<open>language\<close>, the image its external URL.
\<close>

type_synonym rich_text = "string list"

datatype block =
    Paragraph rich_text
  | Heading nat rich_text
  | BulletedListItem rich_text
  | NumberedListItem rich_text
  | ToDo rich_text bool
  | Quote rich_text
  | Code rich_text string
  | ExternalImage string

subsection \<open>\<open>_create_rich_text\<close>\<close>

definition image_caption :: "rmatch \<Rightarrow> string \<Rightarrow> string" where
  "image_caption m s = ''[Image: '' @ (case group m 1 s of None \<Rightarrow> [] | Some g \<Rightarrow> g) @ '']''"

text \<open>\<open>replace_wikilink\<close>: \<open>alias if alias else page\<close>.\<close>

definition replace_wikilink :: "rmatch \<Rightarrow> string \<Rightarrow> string" where
  "replace_wikilink m s =
     (let page = (case group m 1 s of None \<Rightarrow> [] | Some g \<Rightarrow> g);
          alias = group m 2 s
      in case alias of
           None \<Rightarrow> page
         | Some a \<Rightarrow> if a \<noteq> [] then a else page)"

definition create_rich_text :: "string \<Rightarrow> rich_text" where
  "create_rich_text text0 =
     (let text1 = re_sub obsidian_image_pattern image_caption text0;
          text2 = re_sub wikilink_pattern replace_wikilink text1;
          text3 = (if length text2 > 2000 then take 1997 text2 @ ''...'' else text2)
      in [text3])"

subsection \<open>Block constructors\<close>

definition is_image_line :: "string \<Rightarrow> bool" where
  "is_image_line line =
     (re_match md_image_pattern (strip line) \<noteq> None
      \<or> re_match obsidian_image_pattern (strip line) \<noteq> None)"

text \<open>
  \<open>_create_image_block\<close>.  Group 2 takes part in every match of the pattern, so the branch
  for a missing group is never taken.
\<close>

definition create_image_block :: "string \<Rightarrow> block option" where
  "create_image_block line =
     (case re_search md_image_pattern line of
        None \<Rightarrow> None
      | Some m \<Rightarrow>
          (case group m 2 line of
             None \<Rightarrow> None
           | Some url \<Rightarrow> if startswith url ''http'' then Some (ExternalImage url) else None))"

definition create_paragraph_block :: "string \<Rightarrow> block" where
  "create_paragraph_block text0 = Paragraph (create_rich_text text0)"

definition create_heading_block :: "string \<Rightarrow> nat \<Rightarrow> block" where
  "create_heading_block text0 level = Heading level (create_rich_text text0)"

definition create_bulleted_list_item :: "string \<Rightarrow> block" where
  "create_bulleted_list_item text0 = BulletedListItem (create_rich_text text0)"

definition create_numbered_list_item :: "string \<Rightarrow> block" where
  "create_numbered_list_item text0 = NumberedListItem (create_rich_text text0)"

definition create_todo_block :: "string \<Rightarrow> bool \<Rightarrow> block" where
  "create_todo_block text0 checked = ToDo (create_rich_text text0) checked"

definition create_quote_block :: "string \<Rightarrow> block" where
  "create_quote_block text0 = Quote (create_rich_text text0)"

text \<open>
  \<open>_create_code_block\<close>.  \<open>language.split()[0]\<close> raises \<open>IndexError\<close> on a language that
  is not empty and all whitespace.
\<close>

definition create_code_block :: "string \<Rightarrow> string \<Rightarrow> exn + block" where
  "create_code_block code0 language0 =
     (let language = (if language0 = [] then ''plain text'' else language0);
          code = (if length code0 > 2000 then take 1997 code0 @ ''...'' else code0)
      in if language \<noteq> []
         then (case split_ws language of
                 [] \<Rightarrow> Inl IndexError
               | w # ws \<Rightarrow> Inr (Code [code] w))
         else Inr (Code [code] ''plain text''))"

subsection \<open>\<open>_parse_body_to_blocks\<close>\<close>

text \<open>
  The branches of the loop body for a line that is neither blank nor a code fence
  (the chain from \<open>if line.startswith('# ')\<close> to the final \<open>else\<close>).
\<close>

definition convert_line :: "string \<Rightarrow> block" where
  "convert_line line =
     (if startswith line ''# '' then create_heading_block (drop 2 line) 1
      else if startswith line ''## '' then create_heading_block (drop 3 line) 2
      else if startswith line ''### '' then create_heading_block (drop 4 line) 3
      else if startswith (strip line) ''- '' \<or> startswith (strip line) ''* '' then
        (let content = drop 2 (strip line)
         in if startswith content ''[ ] '' then create_todo_block (drop 4 content) False
            else if startswith content ''[x] '' then create_todo_block (drop 4 content) True
            else create_bulleted_list_item content)
      else if re_match numbered_pattern (strip line) \<noteq> None then
        create_numbered_list_item (re_sub numbered_pattern (\<lambda>m s. []) (strip line))
      else if startswith (strip line) ''> '' then create_quote_block (drop 2 (strip line))
      else if is_image_line line then
        (case create_image_block line of
           Some image_block \<Rightarrow> image_block
         | None \<Rightarrow> create_paragraph_block line)
      else create_paragraph_block line)"

definition is_fence :: "string \<Rightarrow> bool" where
  "is_fence line = startswith (strip line) ''```''"

text \<open>
  The \<open>while i < len(lines)\<close> loop, as a recursion on the lines from index \<open>i\<close> on.  A fence
  takes the lines up to the next fence as its content and consumes that closing fence
  when there is one.
\<close>

function parse_lines :: "string list \<Rightarrow> exn + block list" where
  "parse_lines [] = Inr []"
| "parse_lines (line # rest) =
     (if strip line = [] then parse_lines rest
      else if is_fence line then
        (let language = strip (drop 3 (strip line));
             code_content = takeWhile (\<lambda>l. \<not> is_fence l) rest;
             rest' = drop 1 (dropWhile (\<lambda>l. \<not> is_fence l) rest)
         in case create_code_block (join [CHR 0x0A] code_content) language of
              Inl e \<Rightarrow> Inl e
            | Inr b \<Rightarrow>
                (case parse_lines rest' of
                   Inl e \<Rightarrow> Inl e
                 | Inr bs \<Rightarrow> Inr (b # bs)))
      else (case parse_lines rest of
              Inl e \<Rightarrow> Inl e
            | Inr bs \<Rightarrow> Inr (convert_line line # bs)))"
  by pat_completeness auto
termination
  by (relation "measure length")
     (auto simp: less_Suc_eq_le intro: le_trans [OF diff_le_self length_dropWhile_le])

definition parse_body_to_blocks :: "string \<Rightarrow> exn + block list" where
  "parse_body_to_blocks body = parse_lines (split_char (CHR 0x0A) body)"

text \<open>The rich text a block carries; an image block carries none.\<close>

fun block_text :: "block \<Rightarrow> rich_text" where
  "block_text (Paragraph rt) = rt"
| "block_text (Heading level rt) = rt"
| "block_text (BulletedListItem rt) = rt"
| "block_text (NumberedListItem rt) = rt"
| "block_text (ToDo rt checked) = rt"
| "block_text (Quote rt) = rt"
| "block_text (Code rt language) = rt"
| "block_text (ExternalImage url) = []"


subsection \<open>Values loaded from YAML\<close>

text \<open>
  What \<open>yaml.safe_load\<close> can return: \<open>None\<close>, a bool, an int, a str, a list, a dict (its
  items in order, keys unique), or another object (a float, a date, a datetime), of which
  the code uses only the truth value and the text \<open>str\<close> gives; \<open>YOther\<close> carries the two.
\<close>

datatype yaml =
    YNone
  | YBool bool
  | YInt int
  | YStr string
  | YList "yaml list"
  | YDict "(yaml \<times> yaml) list"
  | YOther bool string

text \<open>Python's truth value of an object.\<close>

fun truthy :: "yaml \<Rightarrow> bool" where
  "truthy YNone = False"
| "truthy (YBool b) = b"
| "truthy (YInt i) = (i \<noteq> 0)"
| "truthy (YStr s) = (s \<noteq> [])"
| "truthy (YList xs) = (xs \<noteq> [])"
| "truthy (YDict kvs) = (kvs \<noteq> [])"
| "truthy (YOther b s) = b"

text \<open>\<open>a or b\<close>\<close>

definition py_or :: "yaml \<Rightarrow> yaml \<Rightarrow> yaml" where
  "py_or a b = (if truthy a then a else b)"

text \<open>\<open>d.get(key)\<close> for a str key: \<open>None\<close> when the key is absent.\<close>

definition dict_get :: "(yaml \<times> yaml) list \<Rightarrow> string \<Rightarrow> yaml" where
  "dict_get kvs key = (case map_of kvs (YStr key) of None \<Rightarrow> YNone | Some v \<Rightarrow> v)"

subsection \<open>The environment of the program\<close>

text \<open>
  A modification time is the number \<open>stat\<close> reports; the code copies and formats it and
  never computes with it.
\<close>

type_synonym timestamp = int

text \<open>
  The library functions the code calls, as parameters: \<open>hashlib.md5(...).hexdigest()\<close>,
  \<open>yaml.safe_load\<close> (a value or an exception), \<open>str\<close> on an object that is not a str, and
  \<open>datetime.fromtimestamp(...).isoformat()\<close>.
\<close>

record runtime =
  md5_hexdigest :: "string \<Rightarrow> string"
  safe_load :: "string \<Rightarrow> exn + yaml"
  obj_str :: "yaml \<Rightarrow> string"
  isoformat :: "timestamp \<Rightarrow> string"

text \<open>\<open>str(v)\<close>: a str is its own text.\<close>

definition py_str :: "runtime \<Rightarrow> yaml \<Rightarrow> string" where
  "py_str rt v = (case v of YStr s \<Rightarrow> s | _ \<Rightarrow> obj_str rt v)"

text \<open>
  A markdown file of the vault as the program observes it: its path relative to the
  vault, the stem of its name, what \<open>stat().st_mtime\<close> gives, what reading it in binary
  mode gives and what reading it as UTF-8 text gives; \<open>None\<close> where the call raises.
\<close>

record md_file =
  relative_path :: string
  stem :: string
  st_mtime :: "timestamp option"
  read_bytes :: "string option"
  read_text :: "string option"

subsection \<open>\<open>_extract_frontmatter\<close>\<close>

datatype level = DEBUG | INFO | WARNING | ERROR

type_synonym log = "(level \<times> string) list"

text \<open>
  The result is paired with the records the function hands to the logger.  Group 1 takes
  part in every match of the pattern.
\<close>

definition extract_frontmatter :: "runtime \<Rightarrow> string \<Rightarrow> log \<times> (exn + yaml \<times> string)" where
  "extract_frontmatter rt content =
     (case re_match frontmatter_pattern content of
        Some m \<Rightarrow>
          (let yaml_content = (case group m 1 content of None \<Rightarrow> [] | Some g \<Rightarrow> g)
           in case safe_load rt yaml_content of
                Inr frontmatter \<Rightarrow>
                  ([], Inr (if frontmatter = YNone then YDict [] else frontmatter,
                            drop (fst m) content))
              | Inl YAMLError \<Rightarrow>
                  ([(WARNING, ''Failed to parse YAML frontmatter'')], Inr (YDict [], content))
              | Inl e \<Rightarrow> ([], Inl e))
      | None \<Rightarrow> ([], Inr (YDict [], content)))"

subsection \<open>\<open>_build_properties\<close>\<close>

text \<open>
  The properties dictionary by its three possible keys; the empty dictionary has none.
  \<open>Name\<close> is the content of the title, \<open>Tags\<close> the names of the multi-select, \<open>Date\<close> the
  start of the date.
\<close>

record page_properties =
  Name :: "string option"
  Tags :: "string list option"
  Date :: "string option"

definition tags_property :: "runtime \<Rightarrow> (yaml \<times> yaml) list \<Rightarrow> string list option" where
  "tags_property rt frontmatter =
     (let tags = py_or (dict_get frontmatter ''tags'') (dict_get frontmatter ''tag'')
      in if truthy tags then
           (let tags' = (case tags of
                           YStr s \<Rightarrow>
                             YList (map YStr (if CHR '','' \<in> set s
                                              then map strip (split_char (CHR '','') s)
                                              else split_ws s))
                         | _ \<Rightarrow> tags)
            in case tags' of
                 YList ts \<Rightarrow> Some (map (py_str rt) ts)
               | _ \<Rightarrow> None)
         else None)"

text \<open>
  \<open>frontmatter.get\<close> raises \<open>AttributeError\<close> on a value that is not a dict, and
  \<open>file_path.stat()\<close> raises \<open>OSError\<close> when the file cannot be examined.
\<close>

definition build_properties :: "runtime \<Rightarrow> string \<Rightarrow> yaml \<Rightarrow> md_file \<Rightarrow> exn + page_properties" where
  "build_properties rt title frontmatter file_path =
     (case frontmatter of
        YDict kvs \<Rightarrow>
          (let tags = tags_property rt kvs;
               date_val = py_or (dict_get kvs ''date'') (dict_get kvs ''created'')
           in case (if \<not> truthy date_val
                    then (case st_mtime file_path of
                            None \<Rightarrow> Inl OSError
                          | Some mtime \<Rightarrow> Inr (YStr (isoformat rt mtime)))
                    else Inr date_val) of
                Inl e \<Rightarrow> Inl e
              | Inr date_val' \<Rightarrow>
                  Inr \<lparr>Name = Some title, Tags = tags,
                       Date = (if truthy date_val' then Some (py_str rt date_val') else None)\<rparr>)
      | _ \<Rightarrow> Inl AttributeError)"

subsection \<open>\<open>parse_file\<close>\<close>

definition empty_properties :: page_properties where
  "empty_properties = \<lparr>Name = None, Tags = None, Date = None\<rparr>"

definition parse_file :: "runtime \<Rightarrow> md_file \<Rightarrow> exn + page_properties \<times> block list" where
  "parse_file rt file_path =
     (case read_text file_path of
        None \<Rightarrow> Inr (empty_properties, [])
      | Some content \<Rightarrow>
          (case snd (extract_frontmatter rt content) of
             Inl e \<Rightarrow> Inl e
           | Inr (frontmatter, body) \<Rightarrow>
               (case build_properties rt (stem file_path) frontmatter file_path of
                  Inl e \<Rightarrow> Inl e
                | Inr properties \<Rightarrow>
                    (case parse_body_to_blocks body of
                       Inl e \<Rightarrow> Inl e
                     | Inr blocks \<Rightarrow> Inr (properties, blocks)))))"

section \<open>notion\_adapter.py\<close>

subsection \<open>The Notion client\<close>

text \<open>
  An object of a response (a page, a block) by its string-valued keys, in order; only
  \<open>id\<close> is read.  A list response after the defaults of \<open>response.get\<close>.
\<close>

type_synonym json_obj = "(string \<times> string) list"

record list_response =
  results :: "json_obj list"
  has_more :: bool
  next_cursor :: "string option"

text \<open>
  The calls of \<open>notion_client.Client\<close> that the adapter makes.  Each takes the remote
  store to a result or an exception and a new store; nothing is assumed about them.
  The query takes the database and the title its filter asks for.
\<close>

record 'r client =
  databases_query :: "string \<Rightarrow> string \<Rightarrow> string option \<Rightarrow> 'r \<Rightarrow> (exn + list_response) \<times> 'r"
  pages_create :: "string \<Rightarrow> page_properties \<Rightarrow> block list \<Rightarrow> 'r \<Rightarrow> (exn + json_obj) \<times> 'r"
  pages_update :: "string \<Rightarrow> page_properties \<Rightarrow> 'r \<Rightarrow> (exn + unit) \<times> 'r"
  blocks_children_list :: "string \<Rightarrow> string option \<Rightarrow> 'r \<Rightarrow> (exn + list_response) \<times> 'r"
  blocks_delete :: "string \<Rightarrow> 'r \<Rightarrow> (exn + unit) \<times> 'r"
  blocks_children_append :: "string \<Rightarrow> block list \<Rightarrow> 'r \<Rightarrow> (exn + unit) \<times> 'r"

datatype call =
    DatabasesQuery string string "string option"
  | PagesCreate string page_properties "block list"
  | PagesUpdate string page_properties
  | BlocksChildrenList string "string option"
  | BlocksDelete string
  | BlocksChildrenAppend string "block list"

text \<open>The world outside the process: the client calls made so far, and the remote store.\<close>

type_synonym 'r world = "call list \<times> 'r"

definition invoke :: "call \<Rightarrow> ('r \<Rightarrow> 'a \<times> 'r) \<Rightarrow> 'r world \<Rightarrow> 'a \<times> 'r world" where
  "invoke c op w = (case op (snd w) of (res, r') \<Rightarrow> (res, (fst w @ [c], r')))"

subsection \<open>\<open>query_database\<close> and \<open>find_page_by_title\<close>\<close>

text \<open>
  The \<open>while has_more\<close> loop; it ends when the store says there is no more, and \<open>None\<close>
  is the run that never ends.  An exception of the client leaves the function.
\<close>

partial_function (option) query_pages ::
  "'r client \<Rightarrow> string \<Rightarrow> string \<Rightarrow> string option \<Rightarrow> json_obj list \<Rightarrow> 'r world
     \<Rightarrow> ((exn + json_obj list) \<times> 'r world) option" where
  "query_pages cl database_id title start_cursor acc w =
     (case invoke (DatabasesQuery database_id title start_cursor)
             (databases_query cl database_id title start_cursor) w of
        (Inl e, w') \<Rightarrow> Some (Inl e, w')
      | (Inr response, w') \<Rightarrow>
          (if has_more response
           then query_pages cl database_id title (next_cursor response) (acc @ results response) w'
           else Some (Inr (acc @ results response), w')))"

declare query_pages.simps [code]

definition query_database ::
  "'r client \<Rightarrow> string \<Rightarrow> string \<Rightarrow> 'r world \<Rightarrow> ((exn + json_obj list) \<times> 'r world) option" where
  "query_database cl database_id title w = query_pages cl database_id title None [] w"

definition find_page_by_title ::
  "'r client \<Rightarrow> string \<Rightarrow> string \<Rightarrow> 'r world \<Rightarrow> ((exn + json_obj option) \<times> 'r world) option" where
  "find_page_by_title cl database_id title w =
     (case query_database cl database_id title w of
        None \<Rightarrow> None
      | Some (Inl e, w') \<Rightarrow> Some (Inl e, w')
      | Some (Inr found, w') \<Rightarrow>
          Some (Inr (case found of [] \<Rightarrow> None | page # rest \<Rightarrow> Some page), w'))"

subsection \<open>\<open>create_page\<close>\<close>

text \<open>\<open>APIResponseError\<close> is caught and gives \<open>None\<close>; any other exception leaves the function.\<close>

definition create_page ::
  "'r client \<Rightarrow> string \<Rightarrow> page_properties \<Rightarrow> block list \<Rightarrow> 'r world
     \<Rightarrow> (exn + json_obj option) \<times> 'r world" where
  "create_page cl database_id properties children w =
     (case invoke (PagesCreate database_id properties children)
             (pages_create cl database_id properties children) w of
        (Inr response, w') \<Rightarrow> (Inr (Some response), w')
      | (Inl e, w') \<Rightarrow> (if e = APIResponseError then Inr None else Inl e, w'))"

subsection \<open>\<open>_replace_page_content\<close> and \<open>update_page\<close>\<close>

text \<open>\<open>for block in blocks: self.client.blocks.delete(block_id=block["id"])\<close>\<close>

fun delete_blocks :: "'r client \<Rightarrow> json_obj list \<Rightarrow> 'r world \<Rightarrow> (exn + unit) \<times> 'r world" where
  "delete_blocks cl [] w = (Inr (), w)"
| "delete_blocks cl (b # bs) w =
     (case map_of b ''id'' of
        None \<Rightarrow> (Inl KeyError, w)
      | Some block_id \<Rightarrow>
          (case invoke (BlocksDelete block_id) (blocks_delete cl block_id) w of
             (Inl e, w') \<Rightarrow> (Inl e, w')
           | (Inr u, w') \<Rightarrow> delete_blocks cl bs w'))"

text \<open>The loop that lists the children page by page and deletes them.\<close>

partial_function (option) clear_children ::
  "'r client \<Rightarrow> string \<Rightarrow> string option \<Rightarrow> 'r world \<Rightarrow> ((exn + unit) \<times> 'r world) option" where
  "clear_children cl page_id start_cursor w =
     (case invoke (BlocksChildrenList page_id start_cursor)
             (blocks_children_list cl page_id start_cursor) w of
        (Inl e, w') \<Rightarrow> Some (Inl e, w')
      | (Inr response, w') \<Rightarrow>
          (case delete_blocks cl (results response) w' of
             (Inl e, w'') \<Rightarrow> Some (Inl e, w'')
           | (Inr u, w'') \<Rightarrow>
               (if has_more response
                then clear_children cl page_id (next_cursor response) w''
                else Some (Inr (), w''))))"

declare clear_children.simps [code]

text \<open>\<open>for i in range(0, len(new_blocks), batch_size)\<close> with \<open>batch_size = 100\<close>.\<close>

function append_batches ::
  "'r client \<Rightarrow> string \<Rightarrow> block list \<Rightarrow> 'r world \<Rightarrow> (exn + unit) \<times> 'r world" where
  "append_batches cl page_id new_blocks w =
     (if new_blocks = [] then (Inr (), w)
      else (case invoke (BlocksChildrenAppend page_id (take 100 new_blocks))
                    (blocks_children_append cl page_id (take 100 new_blocks)) w of
              (Inl e, w') \<Rightarrow> (Inl e, w')
            | (Inr u, w') \<Rightarrow> append_batches cl page_id (drop 100 new_blocks) w'))"
  by pat_completeness auto
termination
  by (relation "measure (\<lambda>(cl, page_id, new_blocks, w). length new_blocks)") auto

definition replace_page_content ::
  "'r client \<Rightarrow> string \<Rightarrow> block list \<Rightarrow> 'r world \<Rightarrow> ((exn + unit) \<times> 'r world) option" where
  "replace_page_content cl page_id new_blocks w =
     (case clear_children cl page_id None w of
        None \<Rightarrow> None
      | Some (Inl e, w') \<Rightarrow> Some (Inl e, w')
      | Some (Inr u, w') \<Rightarrow> Some (append_batches cl page_id new_blocks w'))"

text \<open>The truth value of the properties dictionary: it has a key.\<close>

definition properties_truthy :: "page_properties \<Rightarrow> bool" where
  "properties_truthy p = (Name p \<noteq> None \<or> Tags p \<noteq> None \<or> Date p \<noteq> None)"

text \<open>
  \<open>update_page\<close>: \<open>APIResponseError\<close> anywhere in the \<open>try\<close> gives \<open>False\<close>, any other
  exception leaves the function.
\<close>

definition caught :: "exn \<Rightarrow> exn + bool" where
  "caught e = (if e = APIResponseError then Inr False else Inl e)"

definition update_page ::
  "'r client \<Rightarrow> string \<Rightarrow> page_properties \<Rightarrow> block list option \<Rightarrow> 'r world
     \<Rightarrow> ((exn + bool) \<times> 'r world) option" where
  "update_page cl page_id properties children w =
     (case (if properties_truthy properties
            then invoke (PagesUpdate page_id properties) (pages_update cl page_id properties) w
            else (Inr (), w)) of
        (Inl e, w') \<Rightarrow> Some (caught e, w')
      | (Inr u, w') \<Rightarrow>
          (case children of
             None \<Rightarrow> Some (Inr True, w')
           | Some new_blocks \<Rightarrow>
               (case replace_page_content cl page_id new_blocks w' of
                  None \<Rightarrow> None
                | Some (Inl e, w'') \<Rightarrow> Some (caught e, w'')
                | Some (Inr u', w'') \<Rightarrow> Some (Inr True, w''))))"

section \<open>sync\_service.py\<close>

subsection \<open>The sync state\<close>

text \<open>
  The record the service keeps for a relative path, with the keys as the code writes
  them, and the state: the dictionary from relative paths to records, in insertion order.
\<close>

record sync_record =
  mtime :: timestamp
  hash :: string
  page_id :: string

type_synonym sync_state = "(string \<times> sync_record) list"

record config =
  NOTION_DATABASE_ID :: string





definition calculate_file_hash :: "runtime \<Rightarrow> md_file \<Rightarrow> string" where
  "calculate_file_hash rt file_path =
     (case read_bytes file_path of
        None \<Rightarrow> []
      | Some data \<Rightarrow> md5_hexdigest rt data)"

subsection \<open>\<open>_sync_file\<close>\<close>

text \<open>The truth value of a page id that may be \<open>None\<close>.\<close>

definition id_truthy :: "string option \<Rightarrow> bool" where
  "id_truthy pid = (case pid of None \<Rightarrow> False | Some s \<Rightarrow> s \<noteq> [])"

text \<open>
  The part of \<open>_sync_file\<close> that settles the page id (from \<open>page_id = file_state.get("page_id")\<close>
  to the lookup by title): the stored id when it is truthy, else the id of the page found
  under the title, else the stored value as it is.  \<open>existing_page["id"]\<close> raises
  \<open>KeyError\<close> on a page without that key.
\<close>

definition resolve_page_id ::
  "'r client \<Rightarrow> config \<Rightarrow> string option \<Rightarrow> page_properties \<Rightarrow> 'r world
     \<Rightarrow> ((exn + string option) \<times> 'r world) option" where
  "resolve_page_id cl cfg stored properties w =
     (if \<not> id_truthy stored then
        (let title = (case Name properties of None \<Rightarrow> [] | Some t \<Rightarrow> t)
         in if title \<noteq> [] then
              (case find_page_by_title cl (NOTION_DATABASE_ID cfg) title w of
                 None \<Rightarrow> None
               | Some (Inl e, w') \<Rightarrow> Some (Inl e, w')
               | Some (Inr None, w') \<Rightarrow> Some (Inr stored, w')
               | Some (Inr (Some existing_page), w') \<Rightarrow>
                   (if existing_page \<noteq> [] then
                      (case map_of existing_page ''id'' of
                         None \<Rightarrow> Some (Inl KeyError, w')
                       | Some found_id \<Rightarrow> Some (Inr (Some found_id), w'))
                    else Some (Inr stored, w')))
            else Some (Inr stored, w))
      else Some (Inr stored, w))"

text \<open>
  The part that writes to the remote store (from \<open>success = False\<close> to the end of the
  \<open>else\<close>): an update of the page when the id is truthy, else a create, whose result gives
  the id.  The value is \<open>success\<close> with the page id.
\<close>

definition push_page ::
  "'r client \<Rightarrow> config \<Rightarrow> string option \<Rightarrow> page_properties \<Rightarrow> block list \<Rightarrow> 'r world
     \<Rightarrow> ((exn + bool \<times> string option) \<times> 'r world) option" where
  "push_page cl cfg pid properties blocks w =
     (if id_truthy pid then
        (case update_page cl (case pid of None \<Rightarrow> [] | Some s \<Rightarrow> s) properties (Some blocks) w of
           None \<Rightarrow> None
         | Some (Inl e, w') \<Rightarrow> Some (Inl e, w')
         | Some (Inr success, w') \<Rightarrow> Some (Inr (success, pid), w'))
      else
        (case create_page cl (NOTION_DATABASE_ID cfg) properties blocks w of
           (Inl e, w') \<Rightarrow> Some (Inl e, w')
         | (Inr None, w') \<Rightarrow> Some (Inr (False, pid), w')
         | (Inr (Some result), w') \<Rightarrow>
             (if result \<noteq> [] then
                (case map_of result ''id'' of
                   None \<Rightarrow> Some (Inl KeyError, w')
                 | Some new_id \<Rightarrow> Some (Inr (True, Some new_id), w'))
              else Some (Inr (False, pid), w'))))"

text \<open>
  \<open>_sync_file\<close>.  Every exception inside it is caught by its \<open>except Exception\<close>, which
  logs and returns: the state is then as it was.
\<close>

definition sync_file ::
  "'r client \<Rightarrow> runtime \<Rightarrow> config \<Rightarrow> md_file \<Rightarrow> sync_state \<Rightarrow> 'r world
     \<Rightarrow> (sync_state \<times> 'r world) option" where
  "sync_file cl rt cfg file_path st w =
     (case st_mtime file_path of
        None \<Rightarrow> Some (st, w)
      | Some current_mtime \<Rightarrow>
          (let current_hash = calculate_file_hash rt file_path;
               file_state = map_of st (relative_path file_path);
               last_hash = map_option hash file_state
           in if last_hash = Some current_hash then Some (st, w)
              else
                (case parse_file rt file_path of
                   Inl e \<Rightarrow> Some (st, w)
                 | Inr (properties, blocks) \<Rightarrow>
                     (if \<not> properties_truthy properties then Some (st, w)
                      else
                        (case resolve_page_id cl cfg (map_option page_id file_state) properties w of
                           None \<Rightarrow> None
                         | Some (Inl e, w1) \<Rightarrow> Some (st, w1)
                         | Some (Inr pid, w1) \<Rightarrow>
                             (case push_page cl cfg pid properties blocks w1 of
                                None \<Rightarrow> None
                              | Some (Inl e, w2) \<Rightarrow> Some (st, w2)
                              | Some (Inr (success, pid'), w2) \<Rightarrow>
                                  (case pid' of
                                     None \<Rightarrow> Some (st, w2)
                                   | Some new_id \<Rightarrow>
                                       (if success \<and> new_id \<noteq> []
                                        then Some (AList.update (relative_path file_path)
                                                     \<lparr>mtime = current_mtime, hash = current_hash,
                                                      page_id = new_id\<rparr> st, w2)
                                        else Some (st, w2)))))))))"

subsection \<open>\<open>sync\<close>\<close>

text \<open>The loop over the markdown files of the vault, in the order \<open>rglob\<close> gives them.\<close>

fun sync_files ::
  "'r client \<Rightarrow> runtime \<Rightarrow> config \<Rightarrow> md_file list \<Rightarrow> sync_state \<Rightarrow> 'r world
     \<Rightarrow> (sync_state \<times> 'r world) option" where
  "sync_files cl rt cfg [] st w = Some (st, w)"
| "sync_files cl rt cfg (file_path # rest) st w =
     (case sync_file cl rt cfg file_path st w of
        None \<Rightarrow> None
      | Some (st', w') \<Rightarrow> sync_files cl rt cfg rest st' w')"


subsection \<open>Notions used to state the properties\<close>

text \<open>
  A file is unchanged for a state when the hash stored for its path is the hash of its
  bytes now: the test by which \<open>_sync_file\<close> skips it.
\<close>

definition unchanged :: "runtime \<Rightarrow> sync_state \<Rightarrow> md_file \<Rightarrow> bool" where
  "unchanged rt st file_path =
     (map_option hash (map_of st (relative_path file_path))
        = Some (calculate_file_hash rt file_path))"

text \<open>The client call behind the lookup by title.\<close>

fun is_query :: "call \<Rightarrow> bool" where
  "is_query (DatabasesQuery database_id title start_cursor) = True"
| "is_query c = False"

subsection \<open>The fixtures of tests/test\_sync.py\<close>

text \<open>
  The configuration of the tests, a runtime whose hash is the identity and whose YAML
  loader finds nothing, the file \<open>test.md\<close> of \<open>test_sync_new_file\<close>, a client all of whose
  calls succeed (no page is found, the created page is \<open>new_page_id\<close>) and one whose
  page writes are refused with \<open>APIResponseError\<close>.  The remote store has no content here.
\<close>

definition test_config :: config where
  "test_config = \<lparr>NOTION_DATABASE_ID = ''fake_db_id''\<rparr>"

definition test_runtime :: runtime where
  "test_runtime =
     \<lparr>md5_hexdigest = (\<lambda>data. data), safe_load = (\<lambda>s. Inr YNone),
      obj_str = (\<lambda>v. ''None''), isoformat = (\<lambda>t. ''1970-01-01T00:00:00'')\<rparr>"

definition test_md :: md_file where
  "test_md =
     \<lparr>relative_path = ''test.md'', stem = ''test'', st_mtime = Some 5,
      read_bytes = Some (''# Hello'' @ [CHR 0x0A] @ ''World''),
      read_text = Some (''# Hello'' @ [CHR 0x0A] @ ''World'')\<rparr>"

definition test_properties :: page_properties where
  "test_properties =
     \<lparr>Name = Some ''test'', Tags = None, Date = Some ''1970-01-01T00:00:00''\<rparr>"

definition test_blocks :: "block list" where
  "test_blocks = [Heading 1 [''Hello''], Paragraph [''World'']]"

definition no_pages :: list_response where
  "no_pages = \<lparr>results = [], has_more = False, next_cursor = None\<rparr>"

definition accepting_client :: "unit client" where
  "accepting_client =
     \<lparr>databases_query = (\<lambda>database_id title start_cursor r. (Inr no_pages, r)),
      pages_create = (\<lambda>database_id properties children r. (Inr [(''id'', ''new_page_id'')], r)),
      pages_update = (\<lambda>pg properties r. (Inr (), r)),
      blocks_children_list = (\<lambda>pg start_cursor r. (Inr no_pages, r)),
      blocks_delete = (\<lambda>block_id r. (Inr (), r)),
      blocks_children_append = (\<lambda>pg children r. (Inr (), r))\<rparr>"

definition refusing_client :: "unit client" where
  "refusing_client =
     accepting_client
       \<lparr>pages_create := (\<lambda>database_id properties children r. (Inl APIResponseError, r)),
        pages_update := (\<lambda>pg properties r. (Inl APIResponseError, r))\<rparr>"

text \<open>The state of \<open>test_sync_updated_file\<close>.\<close>

definition synced_before :: sync_state where
  "synced_before =
     [(''test.md'', \<lparr>mtime = 0, hash = ''old_hash'', page_id = ''existing_page_id''\<rparr>)]"

section \<open>Properties of the parser\<close>

subsection \<open>Strings\<close>

lemma strip_Cons_nonspace:
  "\<not> is_space c \<Longrightarrow> strip (c # s) = c # rev (dropWhile is_space (rev s))"
  by (simp add: strip_def dropWhile_append)

lemma strip_eq_Nil_or_nonspace:
  "strip s = [] \<or> (\<exists>c t. strip s = c # t \<and> \<not> is_space c)"
proof (cases "dropWhile is_space s")
  case Nil
  show ?thesis unfolding strip_def Nil by simp
next
  case (Cons c y)
  then have "\<not> is_space c"
    by (metis hd_dropWhile list.distinct(1) list.sel(1))
  then have "strip s = strip (c # y)"
    by (simp add: strip_def Cons)
  with \<open>\<not> is_space c\<close> show ?thesis
    by (simp add: strip_Cons_nonspace)
qed

lemma split_ws_from_nonempty: "cur \<noteq> [] \<Longrightarrow> split_ws_from cur s \<noteq> []"
  by (induction s arbitrary: cur) auto

lemma split_ws_nonspace: "\<not> is_space c \<Longrightarrow> split_ws (c # t) \<noteq> []"
  by (simp add: split_ws_def split_ws_from_nonempty)

lemma create_code_block_stripped:
  "\<exists>code w. create_code_block code0 (strip x) = Inr (Code [code] w) \<and> length code \<le> 2000"
proof -
  consider "strip x = []" | c t where "strip x = c # t" "\<not> is_space c"
    using strip_eq_Nil_or_nonspace by blast
  then show ?thesis
  proof cases
    case 1
    then show ?thesis
      by (simp add: create_code_block_def Let_def split_ws_def is_space_def)
  next
    case 2
    then obtain w ws where "split_ws (c # t) = w # ws"
      using split_ws_nonspace by (metis list.exhaust)
    with 2 show ?thesis
      by (simp add: create_code_block_def Let_def)
  qed
qed

lemma create_rich_text_length: "t \<in> set (create_rich_text x) \<Longrightarrow> length t \<le> 2000"
  by (auto simp: create_rich_text_def Let_def)


lemma create_image_block_text: "create_image_block l = Some b \<Longrightarrow> block_text b = []"
  by (auto simp: create_image_block_def split: option.splits if_splits)

lemma convert_line_text:
  "t \<in> set (block_text (convert_line l)) \<Longrightarrow> length t \<le> 2000"
  by (auto simp: convert_line_def Let_def create_heading_block_def create_todo_block_def
        create_bulleted_list_item_def create_numbered_list_item_def create_quote_block_def
        create_paragraph_block_def create_image_block_text
      dest: create_rich_text_length split: if_splits option.splits)

lemma parse_lines_bounded:
  "\<exists>bs. parse_lines ls = Inr bs \<and> (\<forall>b\<in>set bs. \<forall>t\<in>set (block_text b). length t \<le> 2000)"
proof (induction ls rule: parse_lines.induct)
  case 1
  show ?case by simp
next
  case (2 line rest)
  show ?case
  proof (cases "strip line = []")
    case True
    with 2 show ?thesis by simp
  next
    case blank: False
    show ?thesis
    proof (cases "is_fence line")
      case True
      define rest' where "rest' = drop 1 (dropWhile (\<lambda>l. \<not> is_fence l) rest)"
      obtain code w where cb:
        "create_code_block (join [CHR 0x0A] (takeWhile (\<lambda>l. \<not> is_fence l) rest))
           (strip (drop 3 (strip line))) = Inr (Code [code] w)" "length code \<le> 2000"
        using create_code_block_stripped by blast
      from 2(2) [OF blank True refl refl rest'_def cb(1)]
      obtain bs where "parse_lines rest' = Inr bs"
        "\<forall>b\<in>set bs. \<forall>t\<in>set (block_text b). length t \<le> 2000" by blast
      with blank True cb show ?thesis
        by (simp add: rest'_def)
    next
      case False
      from 2(3) [OF blank False]
      obtain bs where "parse_lines rest = Inr bs"
        "\<forall>b\<in>set bs. \<forall>t\<in>set (block_text b). length t \<le> 2000" by blast
      with blank False show ?thesis
        by (auto dest: convert_line_text)
    qed
  qed
qed


subsection \<open>Lines and headings\<close>

lemma is_image_line_first_char:
  assumes "strip line = c # t" "c \<noteq> CHR ''!''"
  shows "\<not> is_image_line line"
  using assms
  by (simp add: is_image_line_def md_image_pattern_def obsidian_image_pattern_def lit_def
        re_match_def)

lemma numbered_first_char:
  "\<not> is_digit c \<Longrightarrow> re_match numbered_pattern (c # t) = None"
  by (simp add: numbered_pattern_def re_match_def)

lemma convert_line_default:
  assumes "strip line = c # t"
    and "c \<notin> {CHR ''-'', CHR ''*'', CHR ''>'', CHR ''!''}" and "\<not> is_digit c"
    and "\<not> startswith line ''# ''" "\<not> startswith line ''## ''" "\<not> startswith line ''### ''"
  shows "convert_line line = create_paragraph_block line"
proof -
  have "\<not> is_image_line line"
    using is_image_line_first_char [OF assms(1)] assms(2) by simp
  moreover have "re_match numbered_pattern (strip line) = None"
    using assms(1,3) by (simp add: numbered_first_char)
  moreover have "\<not> startswith (strip line) ''- ''" "\<not> startswith (strip line) ''* ''"
    "\<not> startswith (strip line) ''> ''"
    using assms(1,2) by (auto simp: startswith_def)
  ultimately show ?thesis
    using assms(4-6) by (simp add: convert_line_def)
qed

lemma hash_not_space: "\<not> is_space (CHR ''#'')" "\<not> is_digit (CHR ''#'')"
  by (simp_all add: is_space_def is_digit_def)



lemma startswith_take: "startswith l p \<Longrightarrow> n \<le> length p \<Longrightarrow> take n l = take n p"
  by (metis startswith_def take_take min.absorb1)

lemma heading_prefixes_disjoint:
  "\<not> (startswith l ''# '' \<and> startswith l ''## '')"
  "\<not> (startswith l ''# '' \<and> startswith l ''### '')"
  "\<not> (startswith l ''## '' \<and> startswith l ''### '')"
proof -
  show "\<not> (startswith l ''# '' \<and> startswith l ''## '')"
    using startswith_take [of l "''# ''" 2] startswith_take [of l "''## ''" 2] by auto
  show "\<not> (startswith l ''# '' \<and> startswith l ''### '')"
    using startswith_take [of l "''# ''" 2] startswith_take [of l "''### ''" 2] by auto
  show "\<not> (startswith l ''## '' \<and> startswith l ''### '')"
    using startswith_take [of l "''## ''" 3] startswith_take [of l "''### ''" 3] by auto
qed

lemma not_heading:
  assumes "\<not> startswith l ''# ''" "\<not> startswith l ''## ''" "\<not> startswith l ''### ''"
  shows "convert_line l \<noteq> Heading level rt"
  using assms
  by (simp add: convert_line_def Let_def create_todo_block_def
        create_bulleted_list_item_def create_numbered_list_item_def create_quote_block_def
        create_paragraph_block_def create_image_block_def
      split: option.splits)

lemma convert_line_heading_iff:
  "convert_line l = Heading level rt \<longleftrightarrow>
     (level = 1 \<and> startswith l ''# '' \<and> rt = create_rich_text (drop 2 l))
     \<or> (level = 2 \<and> startswith l ''## '' \<and> rt = create_rich_text (drop 3 l))
     \<or> (level = 3 \<and> startswith l ''### '' \<and> rt = create_rich_text (drop 4 l))"
proof (cases "startswith l ''# ''")
  case True
  then have "\<not> startswith l ''## ''" "\<not> startswith l ''### ''"
    using heading_prefixes_disjoint by blast+
  with True show ?thesis
    by (auto simp: convert_line_def create_heading_block_def)
next
  case h1: False
  show ?thesis
  proof (cases "startswith l ''## ''")
    case True
    then have "\<not> startswith l ''### ''"
      using heading_prefixes_disjoint by blast
    with h1 True show ?thesis
      by (auto simp: convert_line_def create_heading_block_def)
  next
    case h2: False
    show ?thesis
    proof (cases "startswith l ''### ''")
      case True
      with h1 h2 show ?thesis
        by (auto simp: convert_line_def create_heading_block_def)
    next
      case False
      with h1 h2 show ?thesis
        using not_heading by blast
    qed
  qed
qed

lemma four_le_Suc: "4 \<le> (n::nat) \<Longrightarrow> \<exists>m. n = Suc (Suc (Suc (Suc m)))"
  using le_Suc_ex [of 4 n] by (auto simp: numeral_eq_Suc)

lemma hash_line_not_fence:
  assumes u: "strip line = CHR ''#'' # w"
  shows "\<not> is_fence line" "strip line \<noteq> []"
  by (simp_all add: is_fence_def u startswith_def)

lemma parse_lines_plain:
  assumes nb: "strip line \<noteq> []" and nf: "\<not> is_fence line" and bs: "parse_lines rest = Inr bs"
  shows "parse_lines (line # rest) = Inr (convert_line line # bs)"
  by (simp add: nb nf bs)


lemma convert_four_hashes:
  "convert_line (CHR ''#'' # CHR ''#'' # CHR ''#'' # CHR ''#'' # w)
     = create_paragraph_block (CHR ''#'' # CHR ''#'' # CHR ''#'' # CHR ''#'' # w)"
proof (rule convert_line_default)
  show "strip (CHR ''#'' # CHR ''#'' # CHR ''#'' # CHR ''#'' # w)
      = CHR ''#'' # rev (dropWhile is_space (rev (CHR ''#'' # CHR ''#'' # CHR ''#'' # w)))"
    by (rule strip_Cons_nonspace [OF hash_not_space(1)])
qed (simp_all add: hash_not_space startswith_def)


lemma deep_heading_paragraph:
  assumes n: "4 \<le> n"
  shows "\<exists>bs. parse_lines rest = Inr bs \<and>
            parse_lines ((replicate n (CHR ''#'') @ CHR '' '' # t) # rest)
              = Inr (create_paragraph_block (replicate n (CHR ''#'') @ CHR '' '' # t) # bs)"
proof -
  from four_le_Suc [OF n] obtain m where m: "n = Suc (Suc (Suc (Suc m)))" ..
  define w where "w = replicate m (CHR ''#'') @ CHR '' '' # t"
  define line where "line = CHR ''#'' # CHR ''#'' # CHR ''#'' # CHR ''#'' # w"
  have line: "replicate n (CHR ''#'') @ CHR '' '' # t = line"
    by (simp add: m w_def line_def)
  have u: "strip line = CHR ''#'' # rev (dropWhile is_space (rev (CHR ''#'' # CHR ''#'' # CHR ''#'' # w)))"
    unfolding line_def by (rule strip_Cons_nonspace [OF hash_not_space(1)])
  have conv: "convert_line line = create_paragraph_block line"
    unfolding line_def by (rule convert_four_hashes)
  obtain bs where bs: "parse_lines rest = Inr bs"
    using parse_lines_bounded by blast
  have "parse_lines (line # rest) = Inr (convert_line line # bs)"
    by (rule parse_lines_plain [OF hash_line_not_fence(2) [OF u] hash_line_not_fence(1) [OF u] bs])
  then have "parse_lines rest = Inr bs \<and>
      parse_lines (line # rest) = Inr (create_paragraph_block line # bs)"
    using bs by (simp only: conv simp_thms)
  then show ?thesis
    unfolding line by (rule exI)
qed

text \<open>
  C10.  A line that begins with four or more \<open>#\<close> followed by a space is emitted as a
  paragraph built from the full raw line, not as a heading; a heading block of level 1, 2
  or 3 is produced exactly for the prefixes \<open># \<close>, \<open>## \<close> and \<open>### \<close>, from the text after
  the prefix.
\<close>

theorem heading_levels:
  "(4 \<le> n \<longrightarrow>
      (\<exists>bs. parse_lines rest = Inr bs \<and>
            parse_lines ((replicate n (CHR ''#'') @ CHR '' '' # t) # rest)
              = Inr (create_paragraph_block (replicate n (CHR ''#'') @ CHR '' '' # t) # bs)))
   \<and> (convert_line l = Heading level rt \<longleftrightarrow>
        (level = 1 \<and> startswith l ''# '' \<and> rt = create_rich_text (drop 2 l))
        \<or> (level = 2 \<and> startswith l ''## '' \<and> rt = create_rich_text (drop 3 l))
        \<or> (level = 3 \<and> startswith l ''### '' \<and> rt = create_rich_text (drop 4 l)))"
proof (intro conjI impI)
  assume "4 \<le> n"
  then show "\<exists>bs. parse_lines rest = Inr bs \<and>
            parse_lines ((replicate n (CHR ''#'') @ CHR '' '' # t) # rest)
              = Inr (create_paragraph_block (replicate n (CHR ''#'') @ CHR '' '' # t) # bs)"
    by (rule deep_heading_paragraph)
next
  show "convert_line l = Heading level rt \<longleftrightarrow>
        (level = 1 \<and> startswith l ''# '' \<and> rt = create_rich_text (drop 2 l))
        \<or> (level = 2 \<and> startswith l ''## '' \<and> rt = create_rich_text (drop 3 l))
        \<or> (level = 3 \<and> startswith l ''### '' \<and> rt = create_rich_text (drop 4 l))"
    by (rule convert_line_heading_iff)
qed

theorem heading_levels_witness:
  "(4::nat) \<le> 4
   \<and> parse_lines [''#### Title''] = Inr [Paragraph [''#### Title'']]
   \<and> convert_line ''### Title'' = Heading 3 [''Title'']"
proof -
  have p: "create_paragraph_block ''#### Title'' = Paragraph [''#### Title'']"
    by code_simp
  have r: "create_rich_text (drop 4 ''### Title'') = [''Title'']"
    by code_simp
  have s: "startswith ''### Title'' ''### ''"
    by (simp add: startswith_def)
  have l: "replicate 4 (CHR ''#'') @ CHR '' '' # ''Title'' = ''#### Title''"
    by (simp add: numeral_eq_Suc)
  note h = heading_levels [of 4 "[]" "''Title''" "''### Title''" 3 "[''Title'']"]
  from h have "\<exists>bs. parse_lines [] = Inr bs \<and>
      parse_lines [''#### Title''] = Inr (Paragraph [''#### Title''] # bs)"
    unfolding l p by simp
  then have a: "parse_lines [''#### Title''] = Inr [Paragraph [''#### Title'']]"
    by auto
  from h have b: "convert_line ''### Title'' = Heading 3 [''Title'']"
    using r s by simp
  from a b show ?thesis by simp
qed


subsection \<open>Text length\<close>

lemma match_here_Ch_absent: "d \<notin> set s \<Longrightarrow> match_here (Ch d # p) pos s cp = None"
  by (cases s) auto

lemma sub_from_first_absent: "d \<notin> set s \<Longrightarrow> sub_from (Ch d # p) f pos 0 s = s"
  by (induction s arbitrary: pos) (auto simp: match_here_Ch_absent)

lemma sub_from_second_absent: "d \<notin> set s \<Longrightarrow> sub_from (Ch c # Ch d # p) f pos 0 s = s"
  by (induction s arbitrary: pos) (auto simp: match_here_Ch_absent)

lemma create_rich_text_plain:
  assumes "CHR ''['' \<notin> set s"
  shows "create_rich_text s = [if 2000 < length s then take 1997 s @ ''...'' else s]"
proof -
  have "re_sub obsidian_image_pattern image_caption s = s"
    using assms by (simp add: re_sub_def obsidian_image_pattern_def lit_def sub_from_second_absent)
  moreover have "re_sub wikilink_pattern replace_wikilink s = s"
    using assms by (simp add: re_sub_def wikilink_pattern_def lit_def sub_from_first_absent)
  ultimately show ?thesis
    by (simp add: create_rich_text_def)
qed

lemma split_char_absent: "sep \<notin> set s \<Longrightarrow> split_char sep s = [s]"
  by (induction s) auto


lemma parse_lines_single_plain:
  assumes c: "\<not> is_space c" "\<not> is_digit c"
    "c \<notin> {CHR ''-'', CHR ''*'', CHR ''>'', CHR ''!''}" "c \<noteq> CHR ''#''" "c \<noteq> CHR 0x60"
  shows "parse_lines [c # t] = Inr [create_paragraph_block (c # t)]"
proof -
  have u: "strip (c # t) = c # rev (dropWhile is_space (rev t))"
    by (rule strip_Cons_nonspace [OF c(1)])
  have conv: "convert_line (c # t) = create_paragraph_block (c # t)"
    by (rule convert_line_default [OF u c(3) c(2)]) (simp_all add: startswith_def c(4))
  have nf: "\<not> is_fence (c # t)"
    by (simp add: is_fence_def u startswith_def c(5))
  have nb: "strip (c # t) \<noteq> []"
    by (simp add: u)
  have e: "parse_lines [] = Inr []"
    by simp
  show ?thesis
    using parse_lines_plain [OF nb nf e] by (simp only: conv)
qed

text \<open>
  C8.  The converter returns a block list for every body, and every rich-text or code
  content in it has at most 2000 characters: the rendered text, or the code, when longer
  than 2000 characters, is cut to its first 1997 characters followed by \<open>...\<close>.
\<close>

theorem converter_text_bounded:
  "(\<exists>bs. parse_body_to_blocks body = Inr bs
         \<and> (\<forall>b\<in>set bs. \<forall>t\<in>set (block_text b). length t \<le> 2000))
   \<and> (\<forall>t\<in>set (create_rich_text x).
         let r = re_sub wikilink_pattern replace_wikilink
                   (re_sub obsidian_image_pattern image_caption x)
         in t = (if 2000 < length r then take 1997 r @ ''...'' else r))
   \<and> (\<forall>b. create_code_block code language = Inr b \<longrightarrow>
         block_text b = [if 2000 < length code then take 1997 code @ ''...'' else code])"
proof (intro conjI)
  show "\<exists>bs. parse_body_to_blocks body = Inr bs
         \<and> (\<forall>b\<in>set bs. \<forall>t\<in>set (block_text b). length t \<le> 2000)"
    unfolding parse_body_to_blocks_def by (rule parse_lines_bounded)
next
  show "\<forall>t\<in>set (create_rich_text x).
         let r = re_sub wikilink_pattern replace_wikilink
                   (re_sub obsidian_image_pattern image_caption x)
         in t = (if 2000 < length r then take 1997 r @ ''...'' else r)"
    by (simp add: create_rich_text_def Let_def)
next
  show "\<forall>b. create_code_block code language = Inr b \<longrightarrow>
         block_text b = [if 2000 < length code then take 1997 code @ ''...'' else code]"
    by (auto simp: create_code_block_def Let_def split: list.splits if_splits)
qed

theorem converter_text_bounded_witness:
  "parse_body_to_blocks (replicate 2001 (CHR ''a''))
     = Inr [Paragraph [replicate 1997 (CHR ''a'') @ ''...'']]
   \<and> length (replicate 1997 (CHR ''a'') @ ''...'') \<le> 2000"
proof -
  define body where "body = replicate 2001 (CHR ''a'')"
  have shape: "body = CHR ''a'' # replicate 2000 (CHR ''a'')"
    unfolding body_def by (simp add: replicate_Suc [symmetric] del: replicate_Suc)
  have lines: "split_char (CHR 0x0A) body = [body]"
    by (rule split_char_absent) (simp add: body_def)
  have "parse_lines [body] = Inr [create_paragraph_block body]"
    unfolding shape by (rule parse_lines_single_plain) (simp_all add: is_space_def is_digit_def)
  moreover have "create_rich_text body = [take 1997 body @ ''...'']"
    by (simp add: create_rich_text_plain body_def)
  moreover have "take 1997 body = replicate 1997 (CHR ''a'')"
    by (simp add: body_def)
  ultimately have run: "parse_body_to_blocks body = Inr [Paragraph [replicate 1997 (CHR ''a'') @ ''...'']]"
    by (simp add: parse_body_to_blocks_def lines create_paragraph_block_def)
  from converter_text_bounded [of body "[]" "[]" "[]"] obtain bs where
    "parse_body_to_blocks body = Inr bs" "\<forall>b\<in>set bs. \<forall>t\<in>set (block_text b). length t \<le> 2000"
    by blast
  with run have "length (replicate 1997 (CHR ''a'') @ ''...'') \<le> 2000"
    by simp
  with run show ?thesis
    unfolding body_def by simp
qed


subsection \<open>Image lines\<close>

lemma match_here_Ch_Some:
  "match_here (Ch c # p) pos s cp = Some r
     \<longleftrightarrow> (\<exists>xs. s = c # xs \<and> match_here p (Suc pos) xs cp = Some r)"
  by (cases s) auto

lemma lazy_skip:
  "\<forall>c\<in>set a. in_class k c \<Longrightarrow> match_here p (pos + length a) s cp \<noteq> None
     \<Longrightarrow> match_here (StarLazy k # p) pos (a @ s) cp \<noteq> None"
proof (induction a arbitrary: pos)
  case Nil
  then show ?case by (cases s) (auto split: option.splits)
next
  case (Cons x a)
  from Cons.prems have "match_here (StarLazy k # p) (Suc pos) (a @ s) cp \<noteq> None"
    by (intro Cons.IH) auto
  with Cons.prems show ?case
    by (auto split: option.splits)
qed

lemma lazy_sound:
  "match_here (StarLazy k # p) pos s cp = Some r
     \<Longrightarrow> \<exists>a s'. s = a @ s' \<and> (\<forall>c\<in>set a. in_class k c)
            \<and> match_here p (pos + length a) s' cp = Some r"
proof (induction s arbitrary: pos)
  case Nil
  then show ?case by auto
next
  case (Cons x xs)
  show ?case
  proof (cases "match_here p pos (x # xs) cp")
    case (Some r')
    with Cons.prems have "match_here p (pos + length ([]::string)) (x # xs) cp = Some r"
      by simp
    then show ?thesis by (metis append_Nil empty_iff list.set(1))
  next
    case None
    with Cons.prems have k: "in_class k x"
      and m: "match_here (StarLazy k # p) (Suc pos) xs cp = Some r"
      by (auto split: if_splits)
    from Cons.IH [OF m] obtain a s' where
      "xs = a @ s'" "\<forall>c\<in>set a. in_class k c" "match_here p (Suc pos + length a) s' cp = Some r"
      by blast
    with k have "x # xs = (x # a) @ s' \<and> (\<forall>c\<in>set (x # a). in_class k c)
        \<and> match_here p (pos + length (x # a)) s' cp = Some r"
      by simp
    then show ?thesis by blast
  qed
qed


lemma in_class_Dot_all: "(\<forall>c\<in>set a. in_class Dot c) \<longleftrightarrow> CHR 0x0A \<notin> set a"
  by auto

lemma md_image_match_iff:
  "re_match md_image_pattern s \<noteq> None \<longleftrightarrow>
     (\<exists>alt url tail. s = ''!['' @ alt @ ''](''  @ url @ '')'' @ tail
          \<and> CHR 0x0A \<notin> set alt \<and> CHR 0x0A \<notin> set url)"
proof
  assume "re_match md_image_pattern s \<noteq> None"
  then obtain r where r: "match_here md_image_pattern 0 s ([], []) = Some r"
    by (auto simp: re_match_def)
  then obtain xs where xs: "s = CHR ''!'' # CHR ''['' # xs"
    and m1: "match_here (StarLazy Dot # Close 1 # Ch (CHR '']'') # Ch (CHR ''('') # Open 2
               # StarLazy Dot # Close 2 # [Ch (CHR '')'')]) 2 xs ([(1, 2)], []) = Some r"
    by (auto simp: md_image_pattern_def lit_def match_here_Ch_Some numeral_2_eq_2)
  from lazy_sound [OF m1] obtain alt s1 where alt: "xs = alt @ s1" "\<forall>c\<in>set alt. in_class Dot c"
    and m2: "match_here (Close 1 # Ch (CHR '']'') # Ch (CHR ''('') # Open 2
               # StarLazy Dot # Close 2 # [Ch (CHR '')'')]) (2 + length alt) s1 ([(1, 2)], []) = Some r"
    by blast
  from m2 obtain ys cp2 where ys: "s1 = CHR '']'' # CHR ''('' # ys"
    and m3: "match_here (StarLazy Dot # Close 2 # [Ch (CHR '')'')]) (Suc (Suc (2 + length alt))) ys cp2 = Some r"
    by (auto simp: match_here_Ch_Some)
  from lazy_sound [OF m3] obtain url s2 where url: "ys = url @ s2" "\<forall>c\<in>set url. in_class Dot c"
    and m4: "match_here (Close 2 # [Ch (CHR '')'')]) (Suc (Suc (2 + length alt)) + length url) s2 cp2 = Some r"
    by blast
  from m4 obtain tail where tail: "s2 = CHR '')'' # tail"
    by (cases cp2) (auto simp: match_here_Ch_Some split: option.splits)
  have "s = ''!['' @ alt @ ''](''  @ url @ '')'' @ tail"
    by (simp add: xs alt(1) ys url(1) tail)
  with alt(2) url(2) show "\<exists>alt url tail. s = ''!['' @ alt @ ''](''  @ url @ '')'' @ tail
          \<and> CHR 0x0A \<notin> set alt \<and> CHR 0x0A \<notin> set url"
    unfolding in_class_Dot_all by blast
next
  assume "\<exists>alt url tail. s = ''!['' @ alt @ ''](''  @ url @ '')'' @ tail
          \<and> CHR 0x0A \<notin> set alt \<and> CHR 0x0A \<notin> set url"
  then obtain alt url tail where s: "s = ''!['' @ alt @ ''](''  @ url @ '')'' @ tail"
    and nl: "\<forall>c\<in>set alt. in_class Dot c" "\<forall>c\<in>set url. in_class Dot c"
    unfolding in_class_Dot_all by blast
  have "match_here (StarLazy Dot # Close 2 # [Ch (CHR '')'')]) (Suc (Suc (2 + length alt)))
          (url @ CHR '')'' # tail) ([(2, Suc (Suc (2 + length alt))), (1, 2)], [(1, 2, 2 + length alt)]) \<noteq> None"
    by (rule lazy_skip [OF nl(2)]) simp
  then have "match_here (Close 1 # Ch (CHR '']'') # Ch (CHR ''('') # Open 2
               # StarLazy Dot # Close 2 # [Ch (CHR '')'')]) (2 + length alt)
          (CHR '']'' # CHR ''('' # url @ CHR '')'' # tail) ([(1, 2)], []) \<noteq> None"
    by simp
  from lazy_skip [OF nl(1) this]
  show "re_match md_image_pattern s \<noteq> None"
    by (simp add: re_match_def md_image_pattern_def lit_def s numeral_2_eq_2)
qed


lemma obsidian_image_match_iff:
  "re_match obsidian_image_pattern s \<noteq> None \<longleftrightarrow>
     (\<exists>target tail. s = ''![['' @ target @ '']]'' @ tail \<and> CHR 0x0A \<notin> set target)"
proof
  assume "re_match obsidian_image_pattern s \<noteq> None"
  then obtain r where r: "match_here obsidian_image_pattern 0 s ([], []) = Some r"
    by (auto simp: re_match_def)
  then obtain xs where xs: "s = CHR ''!'' # CHR ''['' # CHR ''['' # xs"
    and m1: "match_here (StarLazy Dot # Close 1 # Ch (CHR '']'') # [Ch (CHR '']'')])
               3 xs ([(1, 3)], []) = Some r"
    by (auto simp: obsidian_image_pattern_def lit_def match_here_Ch_Some numeral_3_eq_3)
  from lazy_sound [OF m1] obtain target s1 where t: "xs = target @ s1"
      "\<forall>c\<in>set target. in_class Dot c"
    and m2: "match_here (Close 1 # Ch (CHR '']'') # [Ch (CHR '']'')])
               (3 + length target) s1 ([(1, 3)], []) = Some r"
    by blast
  from m2 obtain tail where tail: "s1 = CHR '']'' # CHR '']'' # tail"
    by (auto simp: match_here_Ch_Some)
  have "s = ''![['' @ target @ '']]'' @ tail"
    by (simp add: xs t(1) tail)
  with t(2) show "\<exists>target tail. s = ''![['' @ target @ '']]'' @ tail \<and> CHR 0x0A \<notin> set target"
    unfolding in_class_Dot_all by blast
next
  assume "\<exists>target tail. s = ''![['' @ target @ '']]'' @ tail \<and> CHR 0x0A \<notin> set target"
  then obtain target tail where s: "s = ''![['' @ target @ '']]'' @ tail"
    and nl: "\<forall>c\<in>set target. in_class Dot c"
    unfolding in_class_Dot_all by blast
  have "match_here (StarLazy Dot # Close 1 # Ch (CHR '']'') # [Ch (CHR '']'')])
          3 (target @ CHR '']'' # CHR '']'' # tail) ([(1, 3)], []) \<noteq> None"
    by (rule lazy_skip [OF nl]) simp
  then show "re_match obsidian_image_pattern s \<noteq> None"
    by (simp add: re_match_def obsidian_image_pattern_def lit_def s numeral_3_eq_3)
qed

lemma startswith_Cons: "startswith l (c # p) \<Longrightarrow> \<exists>t. l = c # t"
  by (cases l) (auto simp: startswith_def)

lemma image_line_branch:
  assumes "is_image_line l"
  shows "convert_line l = (case create_image_block l of
                            Some image_block \<Rightarrow> image_block
                          | None \<Rightarrow> create_paragraph_block l)"
proof -
  from assms obtain t where u: "strip l = CHR ''!'' # t"
    unfolding is_image_line_def md_image_match_iff obsidian_image_match_iff by auto
  have nh: "\<not> startswith l (CHR ''#'' # p)" for p
  proof
    assume "startswith l (CHR ''#'' # p)"
    then obtain v where "l = CHR ''#'' # v"
      using startswith_Cons by blast
    with u show False
      using strip_Cons_nonspace [OF hash_not_space(1), of v] by simp
  qed
  have "re_match numbered_pattern (strip l) = None"
    unfolding u by (rule numbered_first_char) (simp add: is_digit_def)
  moreover have "\<not> startswith (strip l) ''- ''" "\<not> startswith (strip l) ''* ''"
    "\<not> startswith (strip l) ''> ''"
    by (simp_all add: u startswith_def)
  ultimately show ?thesis
    using assms nh by (simp add: convert_line_def)
qed

lemma not_image_line_no_image:
  assumes "\<not> is_image_line l"
  shows "convert_line l \<noteq> ExternalImage url"
  using assms
  by (simp add: convert_line_def Let_def create_heading_block_def create_todo_block_def
        create_bulleted_list_item_def create_numbered_list_item_def create_quote_block_def
        create_paragraph_block_def)


text \<open>
  C6, as the code has it.  A line is an image line exactly when its trimmed form begins
  with the markdown-image or the bracket-embed syntax, whatever text follows; every
  image line reaches the image branch, where it becomes the image block when there is
  one and a paragraph of the raw line otherwise; a line that is not an image line never
  becomes an image block.
\<close>

theorem image_line_recognition:
  "(is_image_line l \<longleftrightarrow>
      (\<exists>alt url tail. strip l = ''!['' @ alt @ ''](''  @ url @ '')'' @ tail
            \<and> CHR 0x0A \<notin> set alt \<and> CHR 0x0A \<notin> set url)
      \<or> (\<exists>target tail. strip l = ''![['' @ target @ '']]'' @ tail \<and> CHR 0x0A \<notin> set target))
   \<and> (is_image_line l \<longrightarrow>
        convert_line l = (case create_image_block l of
                            Some image_block \<Rightarrow> image_block
                          | None \<Rightarrow> create_paragraph_block l))
   \<and> (\<not> is_image_line l \<longrightarrow> (\<forall>url. convert_line l \<noteq> ExternalImage url))"
proof (intro conjI impI allI)
  show "is_image_line l \<longleftrightarrow>
      (\<exists>alt url tail. strip l = ''!['' @ alt @ ''](''  @ url @ '')'' @ tail
            \<and> CHR 0x0A \<notin> set alt \<and> CHR 0x0A \<notin> set url)
      \<or> (\<exists>target tail. strip l = ''![['' @ target @ '']]'' @ tail \<and> CHR 0x0A \<notin> set target)"
    unfolding is_image_line_def md_image_match_iff obsidian_image_match_iff ..
next
  assume "is_image_line l"
  then show "convert_line l = (case create_image_block l of
                            Some image_block \<Rightarrow> image_block
                          | None \<Rightarrow> create_paragraph_block l)"
    by (rule image_line_branch)
next
  fix url
  assume "\<not> is_image_line l"
  then show "convert_line l \<noteq> ExternalImage url"
    by (rule not_image_line_no_image)
qed

theorem image_line_trailing_text_counterexample:
  "is_image_line (''![a](http://u)'' @ '' x'')
   \<and> parse_body_to_blocks (''![a](http://u)'' @ '' x'') = Inr [ExternalImage ''http://u'']"
  by code_simp

theorem image_line_recognition_witness:
  "is_image_line ''![a](http://u) x''
   \<and> strip ''![a](http://u) x'' = ''!['' @ ''a'' @ ''](''  @ ''http://u'' @ '')'' @ '' x''
   \<and> convert_line ''![a](http://u) x'' = ExternalImage ''http://u''
   \<and> \<not> is_image_line ''see ![a](http://u)''
   \<and> convert_line ''see ![a](http://u)'' = Paragraph [''see ![a](http://u)'']"
proof -
  have a: "is_image_line ''![a](http://u) x''" by code_simp
  have b: "create_image_block ''![a](http://u) x'' = Some (ExternalImage ''http://u'')"
    by code_simp
  have c: "\<not> is_image_line ''see ![a](http://u)''" by code_simp
  have d: "convert_line ''see ![a](http://u)'' = Paragraph [''see ![a](http://u)'']"
    by code_simp
  have e: "strip ''![a](http://u) x'' = ''!['' @ ''a'' @ ''](''  @ ''http://u'' @ '')'' @ '' x''"
    by code_simp
  from image_line_recognition [of "''![a](http://u) x''"] a b
  have "convert_line ''![a](http://u) x'' = ExternalImage ''http://u''"
    by simp
  moreover from image_line_recognition [of "''see ![a](http://u)''"] c
  have "convert_line ''see ![a](http://u)'' \<noteq> ExternalImage ''http://u''"
    by blast
  ultimately show ?thesis
    using a c d e by simp
qed


lemma lazy_until:
  assumes "\<forall>c\<in>set a. in_class k c \<and> c \<noteq> d"
    and "match_here (Close n # Ch d # p) (pos + length a) (d # s) cp = Some r"
  shows "match_here (StarLazy k # Close n # Ch d # p) pos (a @ d # s) cp = Some r"
  using assms
proof (induction a arbitrary: pos)
  case Nil
  then show ?case by simp
next
  case (Cons x a)
  have "match_here (Close n # Ch d # p) pos (x # a @ d # s) cp = None"
    using Cons.prems(1) by (cases cp) (auto split: option.splits)
  moreover have "match_here (StarLazy k # Close n # Ch d # p) (Suc pos) (a @ d # s) cp = Some r"
    using Cons.prems by (intro Cons.IH) auto
  ultimately show ?case
    using Cons.prems(1) by simp
qed

lemma md_url_part:
  assumes "\<forall>c\<in>set url. c \<noteq> CHR 0x0A \<and> c \<noteq> CHR '')''" and "map_of opens 2 = Some b"
  shows "match_here [StarLazy Dot, Close 2, Ch (CHR '')'')] q (url @ CHR '')'' # tail) (opens, groups)
     = Some (Suc (q + length url), opens, (2, b, q + length url) # groups)"
  by (rule lazy_until) (use assms in auto)

lemma md_alt_part:
  assumes "\<forall>c\<in>set alt. c \<noteq> CHR 0x0A \<and> c \<noteq> CHR '']''"
    and "\<forall>c\<in>set url. c \<noteq> CHR 0x0A \<and> c \<noteq> CHR '')''"
  shows "match_here (StarLazy Dot # Close 1 # Ch (CHR '']'') # Ch (CHR ''('') # Open 2
             # [StarLazy Dot, Close 2, Ch (CHR '')'')]) q
          (alt @ CHR '']'' # CHR ''('' # url @ CHR '')'' # tail) ([(1, b)], [])
     = Some (Suc (Suc (Suc (q + length alt + length url))),
             [(2, Suc (Suc (q + length alt))), (1, b)],
             [(2, Suc (Suc (q + length alt)), Suc (Suc (q + length alt + length url))),
              (1, b, q + length alt)])"
  by (rule lazy_until) (use assms in \<open>auto simp: md_url_part\<close>)

lemma md_image_search_simple:
  assumes "\<forall>c\<in>set alt. c \<noteq> CHR 0x0A \<and> c \<noteq> CHR '']''"
    and "\<forall>c\<in>set url. c \<noteq> CHR 0x0A \<and> c \<noteq> CHR '')''"
  shows "\<exists>m. re_search md_image_pattern (''!['' @ alt @ ''](''  @ url @ '')'' @ tail) = Some m
      \<and> group m 2 (''!['' @ alt @ ''](''  @ url @ '')'' @ tail) = Some url"
  using md_alt_part [OF assms, of 2 tail 2]
  by (simp add: re_search_def md_image_pattern_def lit_def group_def numeral_2_eq_2)


lemma rstrip_nonspace:
  "\<not> is_space c \<Longrightarrow>
     rev (dropWhile is_space (rev (a @ c # t))) = a @ c # rev (dropWhile is_space (rev t))"
  by (simp add: dropWhile_append)

lemma strip_md_image:
  "strip (''!['' @ alt @ ''](''  @ url @ '')'' @ tail)
     = ''!['' @ alt @ ''](''  @ url @ '')'' @ rev (dropWhile is_space (rev tail))"
proof -
  have "\<not> is_space (CHR ''!'')" "\<not> is_space (CHR '')'')"
    by (simp_all add: is_space_def)
  then show ?thesis
    using rstrip_nonspace [of "CHR '')''" "''['' @ alt @ ''](''  @ url" tail]
    by (simp add: strip_Cons_nonspace)
qed

lemma md_match_has_paren:
  assumes "match_here md_image_pattern pos s ([], []) = Some r"
  shows "CHR ''('' \<in> set s"
proof -
  from assms obtain xs where xs: "s = CHR ''!'' # CHR ''['' # xs"
    and m1: "match_here (StarLazy Dot # Close 1 # Ch (CHR '']'') # Ch (CHR ''('') # Open 2
               # StarLazy Dot # Close 2 # [Ch (CHR '')'')]) (Suc (Suc pos)) xs
               ([(1, Suc (Suc pos))], []) = Some r"
    by (auto simp: md_image_pattern_def lit_def match_here_Ch_Some)
  from lazy_sound [OF m1] obtain alt s1 where alt: "xs = alt @ s1"
    and m2: "match_here (Close 1 # Ch (CHR '']'') # Ch (CHR ''('') # Open 2
               # StarLazy Dot # Close 2 # [Ch (CHR '')'')]) (Suc (Suc pos) + length alt) s1
               ([(1, Suc (Suc pos))], []) = Some r"
    by blast
  from m2 obtain ys where "s1 = CHR '']'' # CHR ''('' # ys"
    by (auto simp: match_here_Ch_Some)
  with xs alt show ?thesis by simp
qed

lemma md_search_no_paren: "CHR ''('' \<notin> set s \<Longrightarrow> search_from md_image_pattern pos s = None"
proof (induction s arbitrary: pos)
  case Nil
  then show ?case
    by (simp add: md_image_pattern_def lit_def)
next
  case (Cons x xs)
  have "match_here md_image_pattern pos (x # xs) ([], []) = None"
    using md_match_has_paren [of pos "x # xs"] Cons.prems by (cases "match_here md_image_pattern pos (x # xs) ([], [])") auto
  with Cons show ?case by simp
qed

lemma startswith_append: "startswith l (p @ q) \<Longrightarrow> startswith l p"
proof -
  assume "startswith l (p @ q)"
  then have "take (length p) (take (length p + length q) l) = take (length p) (p @ q)"
    by (simp add: startswith_def)
  then show ?thesis
    by (simp add: startswith_def min_def)
qed

lemma startswith_http:
  "startswith url ''http://'' \<or> startswith url ''https://'' \<Longrightarrow> startswith url ''http''"
  using startswith_append [of url "''http''" "''://''"] startswith_append [of url "''http''" "''s://''"]
  by auto

lemma create_image_block_cases:
  "(re_search md_image_pattern l = Some m \<and> group m 2 l = Some url \<and> startswith url ''http''
      \<longrightarrow> create_image_block l = Some (ExternalImage url))
   \<and> (re_search md_image_pattern l = None
        \<or> (re_search md_image_pattern l = Some m \<and> group m 2 l = Some url
            \<and> \<not> startswith url ''http'')
      \<longrightarrow> create_image_block l = None)"
  by (auto simp: create_image_block_def)


lemma simple_image_line:
  fixes tail :: string
  assumes alt: "\<forall>c\<in>set alt. c \<noteq> CHR 0x0A \<and> c \<noteq> CHR '']''"
    and target: "\<forall>c\<in>set target. c \<noteq> CHR 0x0A \<and> c \<noteq> CHR '')''"
  defines "line \<equiv> ''!['' @ alt @ ''](''  @ target @ '')'' @ tail"
  shows "is_image_line line"
    and "startswith target ''http'' \<Longrightarrow> convert_line line = ExternalImage target"
    and "\<not> startswith target ''http'' \<Longrightarrow> convert_line line = create_paragraph_block line"
proof -
  have "re_match md_image_pattern (strip line) \<noteq> None"
    unfolding line_def strip_md_image md_image_match_iff using alt target by blast
  then show il: "is_image_line line"
    by (simp add: is_image_line_def)
  from md_image_search_simple [OF alt target, of tail] obtain m where
    m: "re_search md_image_pattern line = Some m" "group m 2 line = Some target"
    unfolding line_def by blast
  show "convert_line line = ExternalImage target" if "startswith target ''http''"
    using that m by (simp add: image_line_branch [OF il] create_image_block_def)
  show "convert_line line = create_paragraph_block line" if "\<not> startswith target ''http''"
    using that m by (simp add: image_line_branch [OF il] create_image_block_def)
qed

text \<open>
  C7, as the code has it.  For a line recognized as an image line: when the leftmost
  standard image reference of the line has a target that begins with \<open>http://\<close> or
  \<open>https://\<close>, the image block with exactly that target is produced; when the line has
  no standard reference, or the target of the leftmost one does not begin with \<open>http\<close>,
  no image block is produced and the line becomes a paragraph of the raw line.  A line
  \<open>![alt](target)tail\<close> whose \<open>alt\<close> has no \<open>]\<close> and whose \<open>target\<close> has no \<open>)\<close> is such a
  line with that target; an image line without any \<open>(\<close>, such as an embed alone, has no
  standard reference.
\<close>

theorem image_block_resolution:
  "(is_image_line l \<longrightarrow>
      (\<forall>m url. re_search md_image_pattern l = Some m \<and> group m 2 l = Some url
           \<and> (startswith url ''http://'' \<or> startswith url ''https://'')
         \<longrightarrow> create_image_block l = Some (ExternalImage url) \<and> convert_line l = ExternalImage url)
      \<and> (re_search md_image_pattern l = None
           \<or> (\<exists>m url. re_search md_image_pattern l = Some m \<and> group m 2 l = Some url
                  \<and> \<not> startswith url ''http'')
         \<longrightarrow> create_image_block l = None \<and> convert_line l = create_paragraph_block l)
      \<and> (CHR ''('' \<notin> set l \<longrightarrow> convert_line l = create_paragraph_block l))
   \<and> ((\<forall>c\<in>set alt. c \<noteq> CHR 0x0A \<and> c \<noteq> CHR '']'')
        \<and> (\<forall>c\<in>set target. c \<noteq> CHR 0x0A \<and> c \<noteq> CHR '')'') \<longrightarrow>
        is_image_line (''!['' @ alt @ ''](''  @ target @ '')'' @ tail)
        \<and> (startswith target ''http://'' \<or> startswith target ''https://'' \<longrightarrow>
             convert_line (''!['' @ alt @ ''](''  @ target @ '')'' @ tail) = ExternalImage target)
        \<and> (\<not> startswith target ''http'' \<longrightarrow>
             convert_line (''!['' @ alt @ ''](''  @ target @ '')'' @ tail)
               = create_paragraph_block (''!['' @ alt @ ''](''  @ target @ '')'' @ tail)))"
proof (intro conjI impI allI)
  fix m url
  assume il: "is_image_line l"
    and "re_search md_image_pattern l = Some m \<and> group m 2 l = Some url
           \<and> (startswith url ''http://'' \<or> startswith url ''https://'')"
  then have c: "create_image_block l = Some (ExternalImage url)"
    using create_image_block_cases [of l m url] startswith_http [of url] by blast
  then show "create_image_block l = Some (ExternalImage url)" .
  from c show "convert_line l = ExternalImage url"
    by (simp add: image_line_branch [OF il])
next
  assume il: "is_image_line l"
    and "re_search md_image_pattern l = None
           \<or> (\<exists>m url. re_search md_image_pattern l = Some m \<and> group m 2 l = Some url
                  \<and> \<not> startswith url ''http'')"
  then have c: "create_image_block l = None"
    using create_image_block_cases [of l] by blast
  then show "create_image_block l = None" .
  from c show "convert_line l = create_paragraph_block l"
    by (simp add: image_line_branch [OF il])
next
  assume il: "is_image_line l" and "CHR ''('' \<notin> set l"
  then have "create_image_block l = None"
    by (simp add: create_image_block_def re_search_def md_search_no_paren)
  then show "convert_line l = create_paragraph_block l"
    by (simp add: image_line_branch [OF il])
next
  assume a: "(\<forall>c\<in>set alt. c \<noteq> CHR 0x0A \<and> c \<noteq> CHR '']'')
        \<and> (\<forall>c\<in>set target. c \<noteq> CHR 0x0A \<and> c \<noteq> CHR '')'')"
  then show "is_image_line (''!['' @ alt @ ''](''  @ target @ '')'' @ tail)"
    by (intro simple_image_line(1)) blast+
next
  assume a: "(\<forall>c\<in>set alt. c \<noteq> CHR 0x0A \<and> c \<noteq> CHR '']'')
        \<and> (\<forall>c\<in>set target. c \<noteq> CHR 0x0A \<and> c \<noteq> CHR '')'')"
    and "startswith target ''http://'' \<or> startswith target ''https://''"
  then have "startswith target ''http''"
    using startswith_http by blast
  with a show "convert_line (''!['' @ alt @ ''](''  @ target @ '')'' @ tail) = ExternalImage target"
    by (intro simple_image_line(2)) blast+
next
  assume a: "(\<forall>c\<in>set alt. c \<noteq> CHR 0x0A \<and> c \<noteq> CHR '']'')
        \<and> (\<forall>c\<in>set target. c \<noteq> CHR 0x0A \<and> c \<noteq> CHR '')'')"
    and "\<not> startswith target ''http''"
  then show "convert_line (''!['' @ alt @ ''](''  @ target @ '')'' @ tail)
               = create_paragraph_block (''!['' @ alt @ ''](''  @ target @ '')'' @ tail)"
    by (intro simple_image_line(3)) blast+
qed


theorem image_reference_counterexample:
  "is_image_line (''![a](./x.png) '' @ ''![b](https://h/y.png)'')
   \<and> (case re_match md_image_pattern ''![b](https://h/y.png)'' of
         None \<Rightarrow> None
       | Some m \<Rightarrow> group m 2 ''![b](https://h/y.png)'') = Some ''https://h/y.png''
   \<and> create_image_block (''![a](./x.png) '' @ ''![b](https://h/y.png)'') = None
   \<and> parse_body_to_blocks (''![a](./x.png) '' @ ''![b](https://h/y.png)'')
       = Inr [Paragraph [''![a](./x.png) ![b](https://h/y.png)'']]"
  by code_simp

theorem image_block_resolution_witness:
  "is_image_line ''![alt](https://x/y.png)''
   \<and> convert_line ''![alt](https://x/y.png)'' = ExternalImage ''https://x/y.png''
   \<and> is_image_line ''![alt](./y.png)''
   \<and> convert_line ''![alt](./y.png)'' = Paragraph [''![alt](./y.png)'']
   \<and> is_image_line ''![[y.png]]''
   \<and> convert_line ''![[y.png]]'' = Paragraph [''[Image: y.png]'']"
proof -
  have c: "\<forall>c\<in>set ''alt''. c \<noteq> CHR 0x0A \<and> c \<noteq> CHR '']''"
    "\<forall>c\<in>set ''https://x/y.png''. c \<noteq> CHR 0x0A \<and> c \<noteq> CHR '')''"
    "\<forall>c\<in>set ''./y.png''. c \<noteq> CHR 0x0A \<and> c \<noteq> CHR '')''"
    by simp_all
  have s: "startswith ''https://x/y.png'' ''https://''" "\<not> startswith ''./y.png'' ''http''"
    by (simp_all add: startswith_def)
  have e: "is_image_line ''![[y.png]]''" "CHR ''('' \<notin> set ''![[y.png]]''"
    by code_simp+
  have p: "create_paragraph_block ''![alt](./y.png)'' = Paragraph [''![alt](./y.png)'']"
    "create_paragraph_block ''![[y.png]]'' = Paragraph [''[Image: y.png]'']"
    by code_simp+
  from image_block_resolution [of "''![[y.png]]''" "''alt''" "''https://x/y.png''" "[]"] c s e
  have 1: "is_image_line ''![alt](https://x/y.png)''
      \<and> convert_line ''![alt](https://x/y.png)'' = ExternalImage ''https://x/y.png''
      \<and> convert_line ''![[y.png]]'' = create_paragraph_block ''![[y.png]]''"
    by simp
  from image_block_resolution [of "''![[y.png]]''" "''alt''" "''./y.png''" "[]"] c s
  have 2: "is_image_line ''![alt](./y.png)''
      \<and> convert_line ''![alt](./y.png)'' = create_paragraph_block ''![alt](./y.png)''"
    by simp
  from 1 2 e show ?thesis
    by (simp only: p simp_thms)
qed


section \<open>Properties of the frontmatter and the page properties\<close>





text \<open>
  C4, as the code has it.  The Date comes from the first of \<open>date\<close> and \<open>created\<close> whose value
  is truthy (present and not empty, null, zero or false), as its \<open>str\<close>, and from the
  modification time in ISO form when neither is.  So with a truthy \<open>date\<close> the Date is the
  text of the date value whatever \<open>created\<close> holds, and a str date value is stored as it is.
\<close>

theorem date_priority:
  "(truthy (dict_get kvs ''date'') \<longrightarrow>
      (\<exists>p. build_properties rt title (YDict kvs) f = Inr p
           \<and> Date p = Some (py_str rt (dict_get kvs ''date''))))
   \<and> (dict_get kvs ''date'' = YStr s \<and> s \<noteq> [] \<longrightarrow>
      (\<exists>p. build_properties rt title (YDict kvs) f = Inr p \<and> Date p = Some s))
   \<and> (\<not> truthy (dict_get kvs ''date'') \<and> truthy (dict_get kvs ''created'') \<longrightarrow>
      (\<exists>p. build_properties rt title (YDict kvs) f = Inr p
           \<and> Date p = Some (py_str rt (dict_get kvs ''created''))))
   \<and> (\<not> truthy (dict_get kvs ''date'') \<and> \<not> truthy (dict_get kvs ''created'')
        \<and> st_mtime f = Some modified \<longrightarrow>
      (\<exists>p. build_properties rt title (YDict kvs) f = Inr p
           \<and> Date p = (if isoformat rt modified = [] then None else Some (isoformat rt modified))))"
  by (auto simp: build_properties_def py_or_def py_str_def Let_def)

theorem date_priority_counterexample:
  "map_of [(YStr ''date'', YStr []), (YStr ''created'', YStr ''2020-01-01'')] (YStr ''date'')
      = Some (YStr [])
   \<and> map_of [(YStr ''date'', YStr []), (YStr ''created'', YStr ''2020-01-01'')] (YStr ''created'')
      = Some (YStr ''2020-01-01'')
   \<and> build_properties
        \<lparr>md5_hexdigest = (\<lambda>s. s), safe_load = (\<lambda>s. Inr YNone),
         obj_str = (\<lambda>v. ''None''), isoformat = (\<lambda>t. ''1970-01-01T00:00:00'')\<rparr>
        ''note''
        (YDict [(YStr ''date'', YStr []), (YStr ''created'', YStr ''2020-01-01'')])
        \<lparr>relative_path = ''note.md'', stem = ''note'', st_mtime = Some 0,
         read_bytes = Some [], read_text = Some []\<rparr>
      = Inr \<lparr>Name = Some ''note'', Tags = None, Date = Some ''2020-01-01''\<rparr>
   \<and> ''2020-01-01'' \<noteq> ([] :: string)"
  by (simp add: build_properties_def tags_property_def py_or_def py_str_def dict_get_def Let_def)

theorem date_priority_witness:
  "truthy (dict_get [(YStr ''date'', YStr ''2023-01-01''), (YStr ''created'', YStr ''2020-01-01'')] ''date'')
   \<and> build_properties
        \<lparr>md5_hexdigest = (\<lambda>s. s), safe_load = (\<lambda>s. Inr YNone),
         obj_str = (\<lambda>v. ''None''), isoformat = (\<lambda>t. ''1970-01-01T00:00:00'')\<rparr>
        ''note''
        (YDict [(YStr ''date'', YStr ''2023-01-01''), (YStr ''created'', YStr ''2020-01-01'')])
        \<lparr>relative_path = ''note.md'', stem = ''note'', st_mtime = Some 0,
         read_bytes = Some [], read_text = Some []\<rparr>
      = Inr \<lparr>Name = Some ''note'', Tags = None, Date = Some ''2023-01-01''\<rparr>
   \<and> \<not> truthy (dict_get [] ''date'') \<and> \<not> truthy (dict_get [] ''created'')
   \<and> build_properties
        \<lparr>md5_hexdigest = (\<lambda>s. s), safe_load = (\<lambda>s. Inr YNone),
         obj_str = (\<lambda>v. ''None''), isoformat = (\<lambda>t. ''1970-01-01T00:00:00'')\<rparr>
        ''note'' (YDict [])
        \<lparr>relative_path = ''note.md'', stem = ''note'', st_mtime = Some 0,
         read_bytes = Some [], read_text = Some []\<rparr>
      = Inr \<lparr>Name = Some ''note'', Tags = None, Date = Some ''1970-01-01T00:00:00''\<rparr>"
proof -
  let ?rt = "\<lparr>md5_hexdigest = (\<lambda>s. s), safe_load = (\<lambda>s. Inr YNone),
         obj_str = (\<lambda>v. ''None''), isoformat = (\<lambda>t. ''1970-01-01T00:00:00'')\<rparr>"
  let ?f = "\<lparr>relative_path = ''note.md'', stem = ''note'', st_mtime = Some (0::int),
         read_bytes = Some [], read_text = Some []\<rparr>"
  let ?kvs = "[(YStr ''date'', YStr ''2023-01-01''), (YStr ''created'', YStr ''2020-01-01'')]"
  have d: "dict_get ?kvs ''date'' = YStr ''2023-01-01''" "dict_get [] ''date'' = YNone"
    "dict_get [] ''created'' = YNone"
    by (simp_all add: dict_get_def)
  from date_priority [where kvs = ?kvs and s = "''2023-01-01''" and rt = ?rt and title = "''note''"
      and f = ?f and modified = 0]
  obtain p where p: "build_properties ?rt ''note'' (YDict ?kvs) ?f = Inr p"
      "Date p = Some ''2023-01-01''"
    unfolding d by auto
  from date_priority [where kvs = "[]" and s = "[]" and rt = ?rt and title = "''note''"
      and f = ?f and modified = 0]
  obtain q where q: "build_properties ?rt ''note'' (YDict []) ?f = Inr q"
      "Date q = Some ''1970-01-01T00:00:00''"
    unfolding d by auto
  have "Name p = Some ''note'' \<and> Tags p = None" "Name q = Some ''note'' \<and> Tags q = None"
    using p(1) q(1)
    by (auto simp: build_properties_def tags_property_def py_or_def dict_get_def Let_def)
  with p q have "build_properties ?rt ''note'' (YDict ?kvs) ?f
        = Inr \<lparr>Name = Some ''note'', Tags = None, Date = Some ''2023-01-01''\<rparr>"
    "build_properties ?rt ''note'' (YDict []) ?f
        = Inr \<lparr>Name = Some ''note'', Tags = None, Date = Some ''1970-01-01T00:00:00''\<rparr>"
    by simp_all
  then show ?thesis
    unfolding d by simp
qed


section \<open>Properties of the adapter and the sync service\<close>

subsection \<open>The calls a function makes\<close>

lemma invoke_log: "invoke c op w = (res, w') \<Longrightarrow> fst w' = fst w @ [c]"
  by (auto simp: invoke_def split: prod.splits)

lemma query_pages_log:
  "query_pages cl database_id title start_cursor acc w = Some y
     \<Longrightarrow> \<exists>cs. fst (snd y) = fst w @ cs \<and> cs \<noteq> [] \<and> (\<forall>c\<in>set cs. is_query c)"
proof (induction rule: query_pages.raw_induct [rotated 1, consumes 1])
  case (1 loop cl database_id title start_cursor acc w y)
  obtain r w1 where i: "invoke (DatabasesQuery database_id title start_cursor)
      (databases_query cl database_id title start_cursor) w = (r, w1)"
    by (cases "invoke (DatabasesQuery database_id title start_cursor)
      (databases_query cl database_id title start_cursor) w")
  from invoke_log [OF i] have l1: "fst w1 = fst w @ [DatabasesQuery database_id title start_cursor]" .
  show ?case
  proof (cases r)
    case (Inl e)
    with 1(2) i l1 show ?thesis by auto
  next
    case (Inr response)
    show ?thesis
    proof (cases "has_more response")
      case True
      with 1(2) i Inr have "loop cl database_id title (next_cursor response)
          (acc @ results response) w1 = Some y"
        by simp
      from 1(1) [OF this] obtain cs where "fst (snd y) = fst w1 @ cs" "\<forall>c\<in>set cs. is_query c"
        by blast
      with l1 show ?thesis by auto
    next
      case False
      with 1(2) i Inr l1 show ?thesis by auto
    qed
  qed
qed

lemma delete_blocks_log:
  "delete_blocks cl bs w = (res, w')
     \<Longrightarrow> \<exists>cs. fst w' = fst w @ cs \<and> (\<forall>c\<in>set cs. \<not> is_query c)"
proof (induction bs arbitrary: w)
  case Nil
  then show ?case by simp
next
  case (Cons b bs)
  show ?case
  proof (cases "map_of b ''id''")
    case None
    with Cons.prems show ?thesis by simp
  next
    case (Some block_id)
    obtain r w1 where i: "invoke (BlocksDelete block_id) (blocks_delete cl block_id) w = (r, w1)"
      by (cases "invoke (BlocksDelete block_id) (blocks_delete cl block_id) w")
    from invoke_log [OF i] have l1: "fst w1 = fst w @ [BlocksDelete block_id]" .
    show ?thesis
    proof (cases r)
      case (Inl e)
      with Cons.prems Some i l1 show ?thesis by auto
    next
      case (Inr u)
      with Cons.prems Some i have "delete_blocks cl bs w1 = (res, w')"
        by simp
      from Cons.IH [OF this] obtain cs where "fst w' = fst w1 @ cs" "\<forall>c\<in>set cs. \<not> is_query c"
        by blast
      with l1 show ?thesis by auto
    qed
  qed
qed

lemma clear_children_log:
  "clear_children cl pg start_cursor w = Some y
     \<Longrightarrow> \<exists>cs. fst (snd y) = fst w @ cs \<and> cs \<noteq> [] \<and> (\<forall>c\<in>set cs. \<not> is_query c)"
proof (induction rule: clear_children.raw_induct [rotated 1, consumes 1])
  case (1 loop cl pg start_cursor w y)
  obtain r w1 where i: "invoke (BlocksChildrenList pg start_cursor)
      (blocks_children_list cl pg start_cursor) w = (r, w1)"
    by (cases "invoke (BlocksChildrenList pg start_cursor)
      (blocks_children_list cl pg start_cursor) w")
  from invoke_log [OF i] have l1: "fst w1 = fst w @ [BlocksChildrenList pg start_cursor]" .
  show ?case
  proof (cases r)
    case (Inl e)
    with 1(2) i l1 show ?thesis by auto
  next
    case (Inr response)
    obtain r2 w2 where d: "delete_blocks cl (results response) w1 = (r2, w2)"
      by (cases "delete_blocks cl (results response) w1")
    from delete_blocks_log [OF d] obtain ds where
      l2: "fst w2 = fst w1 @ ds" "\<forall>c\<in>set ds. \<not> is_query c"
      by blast
    show ?thesis
    proof (cases r2)
      case (Inl e)
      with 1(2) i Inr d l1 l2 show ?thesis by auto
    next
      case r2: (Inr u)
      show ?thesis
      proof (cases "has_more response")
        case True
        with 1(2) i Inr d r2 have "loop cl pg (next_cursor response) w2 = Some y"
          by simp
        from 1(1) [OF this] obtain cs where "fst (snd y) = fst w2 @ cs" "\<forall>c\<in>set cs. \<not> is_query c"
          by blast
        with l1 l2 show ?thesis by auto
      next
        case False
        with 1(2) i Inr d r2 l1 l2 show ?thesis by auto
      qed
    qed
  qed
qed

lemma append_batches_log:
  "append_batches cl pg new_blocks w = (res, w')
     \<Longrightarrow> \<exists>cs. fst w' = fst w @ cs \<and> (\<forall>c\<in>set cs. \<not> is_query c)"
proof (induction cl pg new_blocks w rule: append_batches.induct)
  case (1 cl pg new_blocks w)
  show ?case
  proof (cases "new_blocks = []")
    case True
    with 1(2) show ?thesis by simp
  next
    case False
    obtain r w1 where i: "invoke (BlocksChildrenAppend pg (take 100 new_blocks))
        (blocks_children_append cl pg (take 100 new_blocks)) w = (r, w1)"
      by (cases "invoke (BlocksChildrenAppend pg (take 100 new_blocks))
        (blocks_children_append cl pg (take 100 new_blocks)) w")
    from invoke_log [OF i] have l1: "fst w1 = fst w @ [BlocksChildrenAppend pg (take 100 new_blocks)]" .
    show ?thesis
    proof (cases r)
      case (Inl e)
      with 1(2) False i l1 show ?thesis by auto
    next
      case (Inr u)
      with 1(2) False i have "append_batches cl pg (drop 100 new_blocks) w1 = (res, w')"
        by simp
      from 1(1) [OF False i [symmetric] Inr this] obtain cs where
        "fst w' = fst w1 @ cs" "\<forall>c\<in>set cs. \<not> is_query c"
        by blast
      with l1 show ?thesis by auto
    qed
  qed
qed


lemma replace_page_content_log:
  assumes "replace_page_content cl pg new_blocks w = Some (res, w')"
  shows "\<exists>cs. fst w' = fst w @ cs \<and> (\<forall>c\<in>set cs. \<not> is_query c)"
proof -
  from assms obtain r1 w1 where c: "clear_children cl pg None w = Some (r1, w1)"
    by (auto simp: replace_page_content_def split: option.splits)
  from clear_children_log [OF c] obtain cs where
    l1: "fst w1 = fst w @ cs" "\<forall>c\<in>set cs. \<not> is_query c"
    by auto
  show ?thesis
  proof (cases r1)
    case (Inl e)
    with assms c l1 show ?thesis
      by (auto simp: replace_page_content_def)
  next
    case (Inr u)
    with assms c have "append_batches cl pg new_blocks w1 = (res, w')"
      by (simp add: replace_page_content_def)
    from append_batches_log [OF this] obtain ds where
      "fst w' = fst w1 @ ds" "\<forall>c\<in>set ds. \<not> is_query c"
      by blast
    with l1 show ?thesis by auto
  qed
qed

lemma update_page_log:
  assumes "update_page cl pg properties children w = Some (res, w')"
    and "properties_truthy properties"
  shows "\<exists>cs. fst w' = fst w @ PagesUpdate pg properties # cs \<and> (\<forall>c\<in>set cs. \<not> is_query c)"
proof -
  obtain r1 w1 where i: "invoke (PagesUpdate pg properties) (pages_update cl pg properties) w = (r1, w1)"
    by (cases "invoke (PagesUpdate pg properties) (pages_update cl pg properties) w")
  from invoke_log [OF i] have l1: "fst w1 = fst w @ [PagesUpdate pg properties]" .
  show ?thesis
  proof (cases r1)
    case (Inl e)
    with assms i l1 show ?thesis
      by (auto simp: update_page_def)
  next
    case (Inr u)
    show ?thesis
    proof (cases children)
      case None
      with assms i Inr l1 show ?thesis
        by (auto simp: update_page_def)
    next
      case (Some new_blocks)
      with assms i Inr obtain r2 where "replace_page_content cl pg new_blocks w1 = Some (r2, w')"
        by (auto simp: update_page_def split: option.splits sum.splits)
      from replace_page_content_log [OF this] obtain cs where
        "fst w' = fst w1 @ cs" "\<forall>c\<in>set cs. \<not> is_query c"
        by blast
      with l1 show ?thesis by auto
    qed
  qed
qed

lemma create_page_log:
  "create_page cl database_id properties children w = (res, w')
     \<Longrightarrow> fst w' = fst w @ [PagesCreate database_id properties children]"
  by (auto simp: create_page_def split: prod.splits sum.splits dest: invoke_log)

lemma resolve_stored_id:
  "id_truthy stored \<Longrightarrow> resolve_page_id cl cfg stored properties w = Some (Inr stored, w)"
  by (simp add: resolve_page_id_def)

lemma resolve_not_found:
  assumes "\<not> id_truthy stored" and "Name properties = Some title" and "title \<noteq> []"
    and "find_page_by_title cl (NOTION_DATABASE_ID cfg) title w = Some (Inr None, w1)"
  shows "resolve_page_id cl cfg stored properties w = Some (Inr stored, w1)"
  using assms by (simp add: resolve_page_id_def)



lemma sync_file_changed:
  assumes "st_mtime f = Some modified" and "\<not> unchanged rt st f"
    and "parse_file rt f = Inr (properties, blocks)" and "properties_truthy properties"
  shows "sync_file cl rt cfg f st w =
     (case resolve_page_id cl cfg (map_option page_id (map_of st (relative_path f))) properties w of
        None \<Rightarrow> None
      | Some (Inl e, w1) \<Rightarrow> Some (st, w1)
      | Some (Inr pid, w1) \<Rightarrow>
          (case push_page cl cfg pid properties blocks w1 of
             None \<Rightarrow> None
           | Some (Inl e, w2) \<Rightarrow> Some (st, w2)
           | Some (Inr (success, pid'), w2) \<Rightarrow>
               (case pid' of
                  None \<Rightarrow> Some (st, w2)
                | Some new_id \<Rightarrow>
                    (if success \<and> new_id \<noteq> []
                     then Some (AList.update (relative_path f)
                                  \<lparr>mtime = modified, hash = calculate_file_hash rt f,
                                   page_id = new_id\<rparr> st, w2)
                     else Some (st, w2)))))"
  using assms by (auto simp: sync_file_def unchanged_def Let_def)

lemma push_update:
  assumes "p \<noteq> []"
  shows "push_page cl cfg (Some p) properties blocks w =
     (case update_page cl p properties (Some blocks) w of
        None \<Rightarrow> None
      | Some (Inl e, w') \<Rightarrow> Some (Inl e, w')
      | Some (Inr success, w') \<Rightarrow> Some (Inr (success, Some p), w'))"
  using assms by (simp add: push_page_def id_truthy_def)

lemma push_create:
  assumes "\<not> id_truthy pid"
  shows "push_page cl cfg pid properties blocks w =
     (case create_page cl (NOTION_DATABASE_ID cfg) properties blocks w of
        (Inl e, w') \<Rightarrow> Some (Inl e, w')
      | (Inr None, w') \<Rightarrow> Some (Inr (False, pid), w')
      | (Inr (Some result), w') \<Rightarrow>
          (if result \<noteq> [] then
             (case map_of result ''id'' of
                None \<Rightarrow> Some (Inl KeyError, w')
              | Some new_id \<Rightarrow> Some (Inr (True, Some new_id), w'))
           else Some (Inr (False, pid), w')))"
  using assms by (simp add: push_page_def)

lemma sync_file_result:
  assumes "sync_file cl rt cfg f st w = Some (st', w')"
  shows "st' = st \<or> (\<exists>modified pid. st' = AList.update (relative_path f)
            \<lparr>mtime = modified, hash = calculate_file_hash rt f, page_id = pid\<rparr> st)"
  using assms unfolding sync_file_def Let_def
  by (auto split: option.splits sum.splits prod.splits if_splits)


lemma find_page_by_title_log:
  assumes "find_page_by_title cl database_id title w = Some (res, w')"
  shows "\<exists>cs. fst w' = fst w @ cs \<and> cs \<noteq> [] \<and> (\<forall>c\<in>set cs. is_query c)"
proof -
  from assms obtain r where "query_pages cl database_id title None [] w = Some (r, w')"
    by (auto simp: find_page_by_title_def query_database_def split: option.splits sum.splits)
  from query_pages_log [OF this] show ?thesis by simp
qed

lemma resolve_page_id_log:
  assumes "resolve_page_id cl cfg stored properties w = Some (res, w')"
  shows "\<exists>cs. fst w' = fst w @ cs \<and> (\<forall>c\<in>set cs. is_query c) \<and> ((\<exists>e. res = Inl e) \<longrightarrow> cs \<noteq> [])"
proof (cases "\<not> id_truthy stored \<and> (case Name properties of None \<Rightarrow> [] | Some t \<Rightarrow> t) \<noteq> []")
  case False
  with assms have "w' = w \<and> res = Inr stored"
    by (auto simp: resolve_page_id_def Let_def split: if_splits)
  then show ?thesis by simp
next
  case True
  define title where "title = (case Name properties of None \<Rightarrow> [] | Some t \<Rightarrow> t)"
  from True assms obtain r where "find_page_by_title cl (NOTION_DATABASE_ID cfg) title w = Some (r, w')"
    by (auto simp: resolve_page_id_def Let_def title_def split: option.splits sum.splits if_splits)
  from find_page_by_title_log [OF this] show ?thesis by auto
qed

lemma push_page_log:
  assumes "push_page cl cfg pid properties blocks w = Some (res, w')"
    and "properties_truthy properties"
  shows "\<exists>c cs. fst w' = fst w @ c # cs \<and> (\<forall>x\<in>set (c # cs). \<not> is_query x)"
proof (cases "id_truthy pid")
  case True
  then obtain p where p: "pid = Some p" "p \<noteq> []"
    by (auto simp: id_truthy_def split: option.splits)
  with assms(1) obtain r where "update_page cl p properties (Some blocks) w = Some (r, w')"
    by (auto simp: push_update split: option.splits sum.splits)
  from update_page_log [OF this assms(2)] show ?thesis by auto
next
  case False
  obtain r w1 where c: "create_page cl (NOTION_DATABASE_ID cfg) properties blocks w = (r, w1)"
    by (cases "create_page cl (NOTION_DATABASE_ID cfg) properties blocks w")
  with False assms(1) have "w' = w1"
    by (auto simp: push_create split: sum.splits option.splits if_splits)
  with create_page_log [OF c] show ?thesis by auto
qed

lemma sync_file_changed_calls:
  assumes "st_mtime f = Some modified" and "\<not> unchanged rt st f"
    and "parse_file rt f = Inr (properties, blocks)" and "properties_truthy properties"
    and "sync_file cl rt cfg f st w = Some (st', w')"
  shows "fst w' \<noteq> fst w"
proof -
  note s = assms(5) [unfolded sync_file_changed [OF assms(1-4)]]
  from s obtain r1 w1 where r: "resolve_page_id cl cfg
      (map_option page_id (map_of st (relative_path f))) properties w = Some (r1, w1)"
    by (auto split: option.splits)
  from resolve_page_id_log [OF r] obtain cs where
    cs: "fst w1 = fst w @ cs" "(\<exists>e. r1 = Inl e) \<longrightarrow> cs \<noteq> []"
    by blast
  show ?thesis
  proof (cases r1)
    case (Inl e)
    with s r have "w' = w1" by simp
    with cs Inl show ?thesis by simp
  next
    case (Inr pid)
    with s r obtain r2 where "push_page cl cfg pid properties blocks w1 = Some (r2, w')"
      by (auto split: option.splits sum.splits prod.splits if_splits)
    from push_page_log [OF this assms(4)] cs show ?thesis by auto
  qed
qed


subsection \<open>What a run does to the state\<close>

lemma sync_file_frame:
  assumes "sync_file cl rt cfg f st w = Some (st', w')" and "p \<noteq> relative_path f"
  shows "map_of st' p = map_of st p"
  using sync_file_result [OF assms(1)] assms(2) by (auto simp: update_conv')

lemma sync_files_frame:
  "sync_files cl rt cfg fs st w = Some (st', w') \<Longrightarrow> p \<notin> relative_path ` set fs
     \<Longrightarrow> map_of st' p = map_of st p"
proof (induction fs arbitrary: st w)
  case Nil
  then show ?case by simp
next
  case (Cons f fs)
  from Cons.prems(1) obtain st1 w1 where 1: "sync_file cl rt cfg f st w = Some (st1, w1)"
    and 2: "sync_files cl rt cfg fs st1 w1 = Some (st', w')"
    by (auto split: option.splits)
  from Cons.prems(2) have "map_of st1 p = map_of st p"
    by (intro sync_file_frame [OF 1]) auto
  moreover from Cons.prems(2) have "map_of st' p = map_of st1 p"
    by (intro Cons.IH [OF 2]) auto
  ultimately show ?case by simp
qed

lemma sync_files_append:
  "sync_files cl rt cfg (fs @ gs) st w =
     (case sync_files cl rt cfg fs st w of
        None \<Rightarrow> None
      | Some (st', w') \<Rightarrow> sync_files cl rt cfg gs st' w')"
  by (induction fs arbitrary: st w) (auto split: option.splits)

lemma failed_push_keeps_state:
  assumes "st_mtime f = Some modified" and "\<not> unchanged rt st f"
    and "parse_file rt f = Inr (properties, blocks)" and "properties_truthy properties"
    and "resolve_page_id cl cfg (map_option page_id (map_of st (relative_path f))) properties w
           = Some (Inr pid, w1)"
    and "(\<exists>p r. pid = Some p \<and> p \<noteq> []
            \<and> update_page cl p properties (Some blocks) w1 = Some (r, w2) \<and> r \<noteq> Inr True)
         \<or> (\<exists>r. \<not> id_truthy pid
            \<and> create_page cl (NOTION_DATABASE_ID cfg) properties blocks w1 = (r, w2)
            \<and> (r = Inr None \<or> (\<exists>e. r = Inl e)))"
  shows "sync_file cl rt cfg f st w = Some (st, w2)"
proof -
  from assms(6) consider
    (upd) p r where "pid = Some p" "p \<noteq> []"
      "update_page cl p properties (Some blocks) w1 = Some (r, w2)" "r \<noteq> Inr True"
  | (cre) r where "\<not> id_truthy pid"
      "create_page cl (NOTION_DATABASE_ID cfg) properties blocks w1 = (r, w2)"
      "r = Inr None \<or> (\<exists>e. r = Inl e)"
    by blast
  then show ?thesis
  proof cases
    case upd
    then have "(\<exists>e. push_page cl cfg pid properties blocks w1 = Some (Inl e, w2))
        \<or> push_page cl cfg pid properties blocks w1 = Some (Inr (False, pid), w2)"
      by (cases r) (auto simp: push_update)
    then show ?thesis
      by (auto simp: sync_file_changed [OF assms(1-4)] assms(5) split: option.splits)
  next
    case cre
    then have "(\<exists>e. push_page cl cfg pid properties blocks w1 = Some (Inl e, w2))
        \<or> push_page cl cfg pid properties blocks w1 = Some (Inr (False, pid), w2)"
      by (auto simp: push_create)
    then show ?thesis
      by (auto simp: sync_file_changed [OF assms(1-4)] assms(5) split: option.splits)
  qed
qed


text \<open>
  C1.  A file whose content changed has been parsed and its page id settled; the write to
  the remote store then fails: the update returns \<open>False\<close> or raises, or the create
  returns \<open>None\<close> or raises.  Then \<open>_sync_file\<close> returns with the state as it was (no
  upsert); in a cycle over files with distinct paths the record of that path, or its
  absence, is at the end what it was at the start; and as long as that record stays so,
  a later run on the file is not skipped: it calls the remote store again.
\<close>

theorem failure_keeps_record:
  assumes "st_mtime f = Some modified" and "\<not> unchanged rt st f"
    and "parse_file rt f = Inr (properties, blocks)" and "properties_truthy properties"
    and "resolve_page_id cl cfg (map_option page_id (map_of st (relative_path f))) properties w
           = Some (Inr pid, w1)"
    and "(\<exists>p r. pid = Some p \<and> p \<noteq> []
            \<and> update_page cl p properties (Some blocks) w1 = Some (r, w2) \<and> r \<noteq> Inr True)
         \<or> (\<exists>r. \<not> id_truthy pid
            \<and> create_page cl (NOTION_DATABASE_ID cfg) properties blocks w1 = (r, w2)
            \<and> (r = Inr None \<or> (\<exists>e. r = Inl e)))"
  shows "sync_file cl rt cfg f st w = Some (st, w2)
     \<and> (\<forall>pre post st0 w0 st_end w_end.
           distinct (map relative_path (pre @ f # post))
           \<and> sync_files cl rt cfg pre st0 w0 = Some (st, w)
           \<and> sync_files cl rt cfg post st w2 = Some (st_end, w_end)
         \<longrightarrow> sync_files cl rt cfg (pre @ f # post) st0 w0 = Some (st_end, w_end)
             \<and> map_of st_end (relative_path f) = map_of st0 (relative_path f))
     \<and> (\<forall>cl' st2 w' st' w''.
           map_of st2 (relative_path f) = map_of st (relative_path f)
           \<and> sync_file cl' rt cfg f st2 w' = Some (st', w'')
         \<longrightarrow> fst w'' \<noteq> fst w')"
proof (intro conjI allI impI)
  show one: "sync_file cl rt cfg f st w = Some (st, w2)"
    by (rule failed_push_keeps_state [OF assms])
  {
    fix pre post st0 w0 st_end w_end
    assume a: "distinct (map relative_path (pre @ f # post))
           \<and> sync_files cl rt cfg pre st0 w0 = Some (st, w)
           \<and> sync_files cl rt cfg post st w2 = Some (st_end, w_end)"
    then show "sync_files cl rt cfg (pre @ f # post) st0 w0 = Some (st_end, w_end)"
      by (simp add: sync_files_append one)
    from a have "relative_path f \<notin> relative_path ` set pre"
      "relative_path f \<notin> relative_path ` set post"
      by auto
    with a have "map_of st (relative_path f) = map_of st0 (relative_path f)"
      "map_of st_end (relative_path f) = map_of st (relative_path f)"
      by (auto intro: sync_files_frame)
    then show "map_of st_end (relative_path f) = map_of st0 (relative_path f)"
      by simp
  }
  {
    fix cl' st2 w' st' w''
    assume a: "map_of st2 (relative_path f) = map_of st (relative_path f)
           \<and> sync_file cl' rt cfg f st2 w' = Some (st', w'')"
    with assms(2) have "\<not> unchanged rt st2 f"
      by (simp add: unchanged_def)
    from sync_file_changed_calls [OF assms(1) this assms(3,4)] a
    show "fst w'' \<noteq> fst w'"
      by blast
  }
qed


theorem failure_keeps_record_witness:
  "st_mtime test_md = Some 5 \<and> \<not> unchanged test_runtime [] test_md
   \<and> parse_file test_runtime test_md = Inr (test_properties, test_blocks)
   \<and> properties_truthy test_properties
   \<and> resolve_page_id refusing_client test_config None test_properties ([], ())
       = Some (Inr None, ([DatabasesQuery ''fake_db_id'' ''test'' None], ()))
   \<and> create_page refusing_client ''fake_db_id'' test_properties test_blocks
         ([DatabasesQuery ''fake_db_id'' ''test'' None], ())
       = (Inr None, ([DatabasesQuery ''fake_db_id'' ''test'' None,
                      PagesCreate ''fake_db_id'' test_properties test_blocks], ()))
   \<and> sync_file refusing_client test_runtime test_config test_md [] ([], ())
       = Some ([], ([DatabasesQuery ''fake_db_id'' ''test'' None,
                     PagesCreate ''fake_db_id'' test_properties test_blocks], ()))"
proof -
  have 1: "st_mtime test_md = Some 5"
    by (simp add: test_md_def)
  have 2: "\<not> unchanged test_runtime [] test_md"
    by (simp add: unchanged_def)
  have 3: "parse_file test_runtime test_md = Inr (test_properties, test_blocks)"
    by code_simp
  have 4: "properties_truthy test_properties"
    by (simp add: properties_truthy_def test_properties_def)
  have 5: "resolve_page_id refusing_client test_config None test_properties ([], ())
       = Some (Inr None, ([DatabasesQuery ''fake_db_id'' ''test'' None], ()))"
    by code_simp
  have 6: "create_page refusing_client ''fake_db_id'' test_properties test_blocks
         ([DatabasesQuery ''fake_db_id'' ''test'' None], ())
       = (Inr None, ([DatabasesQuery ''fake_db_id'' ''test'' None,
                      PagesCreate ''fake_db_id'' test_properties test_blocks], ()))"
    by code_simp
  have db: "NOTION_DATABASE_ID test_config = ''fake_db_id''"
    by (simp add: test_config_def)
  have "sync_file refusing_client test_runtime test_config test_md [] ([], ())
       = Some ([], ([DatabasesQuery ''fake_db_id'' ''test'' None,
                     PagesCreate ''fake_db_id'' test_properties test_blocks], ()))"
  proof (rule failure_keeps_record [THEN conjunct1, OF 1 2 3 4])
    show "resolve_page_id refusing_client test_config
        (map_option page_id (map_of [] (relative_path test_md))) test_properties ([], ())
       = Some (Inr None, ([DatabasesQuery ''fake_db_id'' ''test'' None], ()))"
      using 5 by simp
    show "(\<exists>p r. None = Some p \<and> p \<noteq> []
            \<and> update_page refusing_client p test_properties (Some test_blocks)
                 ([DatabasesQuery ''fake_db_id'' ''test'' None], ())
               = Some (r, ([DatabasesQuery ''fake_db_id'' ''test'' None,
                     PagesCreate ''fake_db_id'' test_properties test_blocks], ()))
            \<and> r \<noteq> Inr True)
         \<or> (\<exists>r. \<not> id_truthy None
            \<and> create_page refusing_client (NOTION_DATABASE_ID test_config) test_properties test_blocks
                 ([DatabasesQuery ''fake_db_id'' ''test'' None], ())
               = (r, ([DatabasesQuery ''fake_db_id'' ''test'' None,
                     PagesCreate ''fake_db_id'' test_properties test_blocks], ()))
            \<and> (r = Inr None \<or> (\<exists>e. r = Inl e)))"
      using 6 by (simp add: db id_truthy_def)
  qed
  with 1 2 3 4 5 6 show ?thesis
    by (simp only: simp_thms)
qed

text \<open>
  C9, as the code has it.  After a successful update of the page, or a successful create
  that returns a page with a non-empty \<open>id\<close>, the state holds for the path the record
  made of the modification time of the file as \<open>stat\<close> gave it when the file was taken
  up, the hash of its content, and the id of the page.
\<close>

theorem success_upserts_record:
  assumes "st_mtime f = Some modified" and "\<not> unchanged rt st f"
    and "parse_file rt f = Inr (properties, blocks)" and "properties_truthy properties"
    and "resolve_page_id cl cfg (map_option page_id (map_of st (relative_path f))) properties w
           = Some (Inr pid, w1)"
    and "(pid = Some new_id \<and> new_id \<noteq> []
            \<and> update_page cl new_id properties (Some blocks) w1 = Some (Inr True, w2))
         \<or> (\<exists>result. \<not> id_truthy pid
            \<and> create_page cl (NOTION_DATABASE_ID cfg) properties blocks w1
                 = (Inr (Some result), w2)
            \<and> map_of result ''id'' = Some new_id \<and> new_id \<noteq> [])"
  shows "\<exists>st'. sync_file cl rt cfg f st w = Some (st', w2)
     \<and> st' = AList.update (relative_path f)
               \<lparr>mtime = modified, hash = calculate_file_hash rt f, page_id = new_id\<rparr> st
     \<and> map_of st' (relative_path f)
          = Some \<lparr>mtime = modified, hash = calculate_file_hash rt f, page_id = new_id\<rparr>"
proof -
  from assms(6) have "push_page cl cfg pid properties blocks w1 = Some (Inr (True, Some new_id), w2)"
  proof (elim disjE exE conjE)
    assume "pid = Some new_id" "new_id \<noteq> []"
      "update_page cl new_id properties (Some blocks) w1 = Some (Inr True, w2)"
    then show ?thesis
      by (simp add: push_update)
  next
    fix result
    assume "\<not> id_truthy pid"
      "create_page cl (NOTION_DATABASE_ID cfg) properties blocks w1 = (Inr (Some result), w2)"
      "map_of result ''id'' = Some new_id" "new_id \<noteq> []"
    then show ?thesis
      by (auto simp: push_create)
  qed
  with assms(6) show ?thesis
    by (auto simp: sync_file_changed [OF assms(1-4)] assms(5) update_conv')
qed


theorem stored_timestamp_counterexample:
  "sync_file accepting_client test_runtime test_config (test_md\<lparr>st_mtime := Some 5\<rparr>) [] ([], ())
     = Some ([(''test.md'', \<lparr>mtime = 5, hash = ''# Hello'' @ [CHR 0x0A] @ ''World'',
                             page_id = ''new_page_id''\<rparr>)],
             ([DatabasesQuery ''fake_db_id'' ''test'' None,
               PagesCreate ''fake_db_id'' test_properties test_blocks], ()))
   \<and> sync_file accepting_client test_runtime test_config (test_md\<lparr>st_mtime := Some 7\<rparr>) [] ([], ())
     = Some ([(''test.md'', \<lparr>mtime = 7, hash = ''# Hello'' @ [CHR 0x0A] @ ''World'',
                             page_id = ''new_page_id''\<rparr>)],
             ([DatabasesQuery ''fake_db_id'' ''test'' None,
               PagesCreate ''fake_db_id'' test_properties test_blocks], ()))"
  by code_simp

theorem success_upserts_record_witness:
  "st_mtime test_md = Some 5 \<and> \<not> unchanged test_runtime [] test_md
   \<and> parse_file test_runtime test_md = Inr (test_properties, test_blocks)
   \<and> properties_truthy test_properties
   \<and> resolve_page_id accepting_client test_config None test_properties ([], ())
       = Some (Inr None, ([DatabasesQuery ''fake_db_id'' ''test'' None], ()))
   \<and> create_page accepting_client ''fake_db_id'' test_properties test_blocks
         ([DatabasesQuery ''fake_db_id'' ''test'' None], ())
       = (Inr (Some [(''id'', ''new_page_id'')]),
          ([DatabasesQuery ''fake_db_id'' ''test'' None,
            PagesCreate ''fake_db_id'' test_properties test_blocks], ()))
   \<and> sync_file accepting_client test_runtime test_config test_md [] ([], ())
       = Some (AList.update ''test.md''
                 \<lparr>mtime = 5, hash = calculate_file_hash test_runtime test_md,
                  page_id = ''new_page_id''\<rparr> [],
               ([DatabasesQuery ''fake_db_id'' ''test'' None,
                 PagesCreate ''fake_db_id'' test_properties test_blocks], ()))"
proof -
  have 1: "st_mtime test_md = Some 5"
    by (simp add: test_md_def)
  have 2: "\<not> unchanged test_runtime [] test_md"
    by (simp add: unchanged_def)
  have 3: "parse_file test_runtime test_md = Inr (test_properties, test_blocks)"
    by code_simp
  have 4: "properties_truthy test_properties"
    by (simp add: properties_truthy_def test_properties_def)
  have 5: "resolve_page_id accepting_client test_config None test_properties ([], ())
       = Some (Inr None, ([DatabasesQuery ''fake_db_id'' ''test'' None], ()))"
    by code_simp
  have 6: "create_page accepting_client ''fake_db_id'' test_properties test_blocks
         ([DatabasesQuery ''fake_db_id'' ''test'' None], ())
       = (Inr (Some [(''id'', ''new_page_id'')]),
          ([DatabasesQuery ''fake_db_id'' ''test'' None,
            PagesCreate ''fake_db_id'' test_properties test_blocks], ()))"
    by code_simp
  have db: "NOTION_DATABASE_ID test_config = ''fake_db_id''"
    by (simp add: test_config_def)
  have p: "relative_path test_md = ''test.md''"
    by (simp add: test_md_def)
  have r5: "resolve_page_id accepting_client test_config
        (map_option page_id (map_of [] (relative_path test_md))) test_properties ([], ())
       = Some (Inr None, ([DatabasesQuery ''fake_db_id'' ''test'' None], ()))"
    using 5 by simp
  have c6: "(None = Some ''new_page_id'' \<and> ''new_page_id'' \<noteq> []
            \<and> update_page accepting_client ''new_page_id'' test_properties (Some test_blocks)
                 ([DatabasesQuery ''fake_db_id'' ''test'' None], ())
               = Some (Inr True, ([DatabasesQuery ''fake_db_id'' ''test'' None,
                     PagesCreate ''fake_db_id'' test_properties test_blocks], ())))
         \<or> (\<exists>result. \<not> id_truthy None
            \<and> create_page accepting_client (NOTION_DATABASE_ID test_config) test_properties test_blocks
                 ([DatabasesQuery ''fake_db_id'' ''test'' None], ())
               = (Inr (Some result), ([DatabasesQuery ''fake_db_id'' ''test'' None,
                     PagesCreate ''fake_db_id'' test_properties test_blocks], ()))
            \<and> map_of result ''id'' = Some ''new_page_id'' \<and> ''new_page_id'' \<noteq> [])"
    using 6 by (simp add: db id_truthy_def)
  from success_upserts_record [OF 1 2 3 4 r5 c6]
  have "sync_file accepting_client test_runtime test_config test_md [] ([], ())
       = Some (AList.update ''test.md''
                 \<lparr>mtime = 5, hash = calculate_file_hash test_runtime test_md,
                  page_id = ''new_page_id''\<rparr> [],
               ([DatabasesQuery ''fake_db_id'' ''test'' None,
                 PagesCreate ''fake_db_id'' test_properties test_blocks], ()))"
    unfolding p by blast
  with 1 2 3 4 5 6 show ?thesis
    by (simp only: simp_thms)
qed


subsection \<open>Create or update\<close>

lemma update_path:
  assumes "st_mtime f = Some modified" and "\<not> unchanged rt st f"
    and "parse_file rt f = Inr (properties, blocks)" and "properties_truthy properties"
    and "map_of st (relative_path f) = Some entry" and "page_id entry \<noteq> []"
  shows "sync_file cl rt cfg f st w =
     (case update_page cl (page_id entry) properties (Some blocks) w of
        None \<Rightarrow> None
      | Some (Inl e, w2) \<Rightarrow> Some (st, w2)
      | Some (Inr success, w2) \<Rightarrow>
          (if success
           then Some (AList.update (relative_path f)
                        \<lparr>mtime = modified, hash = calculate_file_hash rt f,
                         page_id = page_id entry\<rparr> st, w2)
           else Some (st, w2)))"
proof -
  have "resolve_page_id cl cfg (map_option page_id (map_of st (relative_path f))) properties w
      = Some (Inr (Some (page_id entry)), w)"
    using assms(5,6) by (simp add: resolve_stored_id id_truthy_def)
  then show ?thesis
    using assms(6)
    by (simp add: sync_file_changed [OF assms(1-4)] push_update
        split: option.splits sum.splits prod.splits)
qed

lemma update_path_calls:
  assumes "st_mtime f = Some modified" and "\<not> unchanged rt st f"
    and "parse_file rt f = Inr (properties, blocks)" and "properties_truthy properties"
    and "map_of st (relative_path f) = Some entry" and "page_id entry \<noteq> []"
    and "sync_file cl rt cfg f st w = Some (st', w')"
  shows "\<exists>cs. fst w' = fst w @ PagesUpdate (page_id entry) properties # cs
            \<and> (\<forall>c\<in>set cs. \<not> is_query c)"
proof -
  from assms(7) obtain r where
    "update_page cl (page_id entry) properties (Some blocks) w = Some (r, w')"
    unfolding update_path [OF assms(1-6)]
    by (auto split: option.splits sum.splits prod.splits if_splits)
  from update_page_log [OF this assms(4)] show ?thesis .
qed

lemma create_path:
  assumes "st_mtime f = Some modified" and "\<not> unchanged rt st f"
    and "parse_file rt f = Inr (properties, blocks)" and "properties_truthy properties"
    and "\<not> id_truthy (map_option page_id (map_of st (relative_path f)))"
    and "Name properties = Some title" and "title \<noteq> []"
    and "find_page_by_title cl (NOTION_DATABASE_ID cfg) title w = Some (Inr None, w1)"
    and "create_page cl (NOTION_DATABASE_ID cfg) properties blocks w1 = (r, w2)"
  shows "\<exists>st'. sync_file cl rt cfg f st w = Some (st', w2)
      \<and> (\<forall>result new_id. r = Inr (Some result) \<and> map_of result ''id'' = Some new_id
             \<and> new_id \<noteq> []
           \<longrightarrow> map_of st' (relative_path f)
               = Some \<lparr>mtime = modified, hash = calculate_file_hash rt f, page_id = new_id\<rparr>)"
proof -
  let ?stored = "map_option page_id (map_of st (relative_path f))"
  have res: "resolve_page_id cl cfg ?stored properties w = Some (Inr ?stored, w1)"
    by (rule resolve_not_found [OF assms(5-8)])
  note s = sync_file_changed [OF assms(1-4), of cl cfg w, unfolded res, simplified]
  show ?thesis
  proof (cases r)
    case (Inl e)
    then show ?thesis
      by (simp add: s push_create [OF assms(5)] assms(9))
  next
    case (Inr created)
    show ?thesis
    proof (cases created)
      case None
      with Inr show ?thesis
        by (simp add: s push_create [OF assms(5)] assms(9) split: option.splits)
    next
      case (Some result)
      with Inr show ?thesis
        by (auto simp: s push_create [OF assms(5)] assms(9) update_conv' split: option.splits)
    qed
  qed
qed


text \<open>
  C3.  For a changed file that has been parsed: when the stored record carries a non-empty
  page id, the page id is settled without any call (there is no lookup by title), the
  file is synced by \<open>update_page\<close> on that id, and the calls of the run begin with the update
  of that page and contain no query; when there is no stored record, or its page id is
  empty, and the lookup by the title (the Name, not empty) finds no page, a create is
  issued with the properties and blocks right after the lookup, and the id of the page
  it returns is the one stored for the path.
\<close>

theorem create_or_update_decision:
  assumes "st_mtime f = Some modified" and "\<not> unchanged rt st f"
    and "parse_file rt f = Inr (properties, blocks)" and "properties_truthy properties"
  shows "(\<forall>entry. map_of st (relative_path f) = Some entry \<and> page_id entry \<noteq> [] \<longrightarrow>
            resolve_page_id cl cfg (Some (page_id entry)) properties w
              = Some (Inr (Some (page_id entry)), w)
            \<and> sync_file cl rt cfg f st w =
                (case update_page cl (page_id entry) properties (Some blocks) w of
                   None \<Rightarrow> None
                 | Some (Inl e, w2) \<Rightarrow> Some (st, w2)
                 | Some (Inr success, w2) \<Rightarrow>
                     (if success
                      then Some (AList.update (relative_path f)
                                   \<lparr>mtime = modified, hash = calculate_file_hash rt f,
                                    page_id = page_id entry\<rparr> st, w2)
                      else Some (st, w2)))
            \<and> (\<forall>st' w'. sync_file cl rt cfg f st w = Some (st', w') \<longrightarrow>
                  (\<exists>cs. fst w' = fst w @ PagesUpdate (page_id entry) properties # cs
                        \<and> (\<forall>c\<in>set cs. \<not> is_query c))))
     \<and> (\<forall>title w1. \<not> id_truthy (map_option page_id (map_of st (relative_path f)))
            \<and> Name properties = Some title \<and> title \<noteq> []
            \<and> find_page_by_title cl (NOTION_DATABASE_ID cfg) title w = Some (Inr None, w1) \<longrightarrow>
            (\<exists>r w2 st'. create_page cl (NOTION_DATABASE_ID cfg) properties blocks w1 = (r, w2)
                \<and> fst w2 = fst w1 @ [PagesCreate (NOTION_DATABASE_ID cfg) properties blocks]
                \<and> sync_file cl rt cfg f st w = Some (st', w2)
                \<and> (\<forall>result new_id. r = Inr (Some result) \<and> map_of result ''id'' = Some new_id
                       \<and> new_id \<noteq> []
                     \<longrightarrow> map_of st' (relative_path f)
                         = Some \<lparr>mtime = modified, hash = calculate_file_hash rt f,
                                 page_id = new_id\<rparr>)))"
proof (intro conjI allI impI)
  fix entry
  assume e: "map_of st (relative_path f) = Some entry \<and> page_id entry \<noteq> []"
  then show "resolve_page_id cl cfg (Some (page_id entry)) properties w
              = Some (Inr (Some (page_id entry)), w)"
    by (simp add: resolve_stored_id id_truthy_def)
  from e show "sync_file cl rt cfg f st w =
                (case update_page cl (page_id entry) properties (Some blocks) w of
                   None \<Rightarrow> None
                 | Some (Inl e, w2) \<Rightarrow> Some (st, w2)
                 | Some (Inr success, w2) \<Rightarrow>
                     (if success
                      then Some (AList.update (relative_path f)
                                   \<lparr>mtime = modified, hash = calculate_file_hash rt f,
                                    page_id = page_id entry\<rparr> st, w2)
                      else Some (st, w2)))"
    by (intro update_path [OF assms]) simp_all
  fix st' w'
  assume "sync_file cl rt cfg f st w = Some (st', w')"
  with e show "\<exists>cs. fst w' = fst w @ PagesUpdate (page_id entry) properties # cs
                        \<and> (\<forall>c\<in>set cs. \<not> is_query c)"
    by (intro update_path_calls [OF assms]) simp_all
next
  fix title w1
  assume a: "\<not> id_truthy (map_option page_id (map_of st (relative_path f)))
            \<and> Name properties = Some title \<and> title \<noteq> []
            \<and> find_page_by_title cl (NOTION_DATABASE_ID cfg) title w = Some (Inr None, w1)"
  obtain r w2 where c: "create_page cl (NOTION_DATABASE_ID cfg) properties blocks w1 = (r, w2)"
    by (cases "create_page cl (NOTION_DATABASE_ID cfg) properties blocks w1")
  from a have a1: "\<not> id_truthy (map_option page_id (map_of st (relative_path f)))"
    and a2: "Name properties = Some title" and a3: "title \<noteq> []"
    and a4: "find_page_by_title cl (NOTION_DATABASE_ID cfg) title w = Some (Inr None, w1)"
    by simp_all
  have "\<exists>st'. sync_file cl rt cfg f st w = Some (st', w2)
      \<and> (\<forall>result new_id. r = Inr (Some result) \<and> map_of result ''id'' = Some new_id
             \<and> new_id \<noteq> []
           \<longrightarrow> map_of st' (relative_path f)
               = Some \<lparr>mtime = modified, hash = calculate_file_hash rt f, page_id = new_id\<rparr>)"
    by (rule create_path [OF assms a1 a2 a3 a4 c])
  with c create_page_log [OF c]
  show "\<exists>r w2 st'. create_page cl (NOTION_DATABASE_ID cfg) properties blocks w1 = (r, w2)
                \<and> fst w2 = fst w1 @ [PagesCreate (NOTION_DATABASE_ID cfg) properties blocks]
                \<and> sync_file cl rt cfg f st w = Some (st', w2)
                \<and> (\<forall>result new_id. r = Inr (Some result) \<and> map_of result ''id'' = Some new_id
                       \<and> new_id \<noteq> []
                     \<longrightarrow> map_of st' (relative_path f)
                         = Some \<lparr>mtime = modified, hash = calculate_file_hash rt f,
                                 page_id = new_id\<rparr>)"
    by blast
qed


theorem create_or_update_decision_witness:
  "st_mtime test_md = Some 5 \<and> \<not> unchanged test_runtime synced_before test_md
   \<and> \<not> unchanged test_runtime [] test_md
   \<and> parse_file test_runtime test_md = Inr (test_properties, test_blocks)
   \<and> properties_truthy test_properties
   \<and> map_of synced_before (relative_path test_md)
       = Some \<lparr>mtime = 0, hash = ''old_hash'', page_id = ''existing_page_id''\<rparr>
   \<and> resolve_page_id accepting_client test_config (Some ''existing_page_id'') test_properties ([], ())
       = Some (Inr (Some ''existing_page_id''), ([], ()))
   \<and> sync_file accepting_client test_runtime test_config test_md synced_before ([], ())
       = Some ([(''test.md'', \<lparr>mtime = 5, hash = ''# Hello'' @ [CHR 0x0A] @ ''World'',
                               page_id = ''existing_page_id''\<rparr>)],
               ([PagesUpdate ''existing_page_id'' test_properties,
                 BlocksChildrenList ''existing_page_id'' None,
                 BlocksChildrenAppend ''existing_page_id'' test_blocks], ()))
   \<and> find_page_by_title accepting_client ''fake_db_id'' ''test'' ([], ())
       = Some (Inr None, ([DatabasesQuery ''fake_db_id'' ''test'' None], ()))
   \<and> sync_file accepting_client test_runtime test_config test_md [] ([], ())
       = Some ([(''test.md'', \<lparr>mtime = 5, hash = ''# Hello'' @ [CHR 0x0A] @ ''World'',
                               page_id = ''new_page_id''\<rparr>)],
               ([DatabasesQuery ''fake_db_id'' ''test'' None,
                 PagesCreate ''fake_db_id'' test_properties test_blocks], ()))"
proof -
  have 1: "st_mtime test_md = Some 5"
    by (simp add: test_md_def)
  have 2: "\<not> unchanged test_runtime synced_before test_md"
    by code_simp
  have n2: "\<not> unchanged test_runtime [] test_md"
    by (simp add: unchanged_def)
  have 3: "parse_file test_runtime test_md = Inr (test_properties, test_blocks)"
    by code_simp
  have 4: "properties_truthy test_properties"
    by (simp add: properties_truthy_def test_properties_def)
  have m: "map_of synced_before (relative_path test_md)
       = Some \<lparr>mtime = 0, hash = ''old_hash'', page_id = ''existing_page_id''\<rparr>"
    by (simp add: synced_before_def test_md_def)
  have u: "sync_file accepting_client test_runtime test_config test_md synced_before ([], ())
       = Some ([(''test.md'', \<lparr>mtime = 5, hash = ''# Hello'' @ [CHR 0x0A] @ ''World'',
                               page_id = ''existing_page_id''\<rparr>)],
               ([PagesUpdate ''existing_page_id'' test_properties,
                 BlocksChildrenList ''existing_page_id'' None,
                 BlocksChildrenAppend ''existing_page_id'' test_blocks], ()))"
    by code_simp
  have q: "find_page_by_title accepting_client ''fake_db_id'' ''test'' ([], ())
       = Some (Inr None, ([DatabasesQuery ''fake_db_id'' ''test'' None], ()))"
    by code_simp
  have c: "sync_file accepting_client test_runtime test_config test_md [] ([], ())
       = Some ([(''test.md'', \<lparr>mtime = 5, hash = ''# Hello'' @ [CHR 0x0A] @ ''World'',
                               page_id = ''new_page_id''\<rparr>)],
               ([DatabasesQuery ''fake_db_id'' ''test'' None,
                 PagesCreate ''fake_db_id'' test_properties test_blocks], ()))"
    by code_simp
  from create_or_update_decision [OF 1 2 3 4, of accepting_client test_config "([], ())"] m
  have r: "resolve_page_id accepting_client test_config (Some ''existing_page_id'') test_properties ([], ())
       = Some (Inr (Some ''existing_page_id''), ([], ()))"
    by simp
  from 1 2 n2 3 4 m r u q c show ?thesis
    by (simp only: simp_thms)
qed


subsection \<open>A second run\<close>









end
